theory Spec2Isabelle
  imports Complex_Main
begin

section \<open>Dense arrays\<close>

text \<open>
  The module works on \<open>torch.Tensor\<close> values.  A tensor is modelled by its shape and
  its elements in row-major order.  Floating-point elements are idealised as real
  numbers, so every equation below is an equation of exact arithmetic; the elementwise
  comparisons and the shape bookkeeping are those of the library.
\<close>

record 'a tensor =
  shape :: "nat list"
  data :: "'a list"

definition valid :: "'a tensor \<Rightarrow> bool" where
  "valid t = (length (data t) = prod_list (shape t))"

text \<open>All multi-indices of a shape, in row-major order, and the flat position of one.\<close>

fun indices :: "nat list \<Rightarrow> nat list list" where
  "indices [] = [[]]"
| "indices (n # ns) = concat (map (\<lambda>i. map ((#) i) (indices ns)) [0..<n])"

fun offset :: "nat list \<Rightarrow> nat list \<Rightarrow> nat" where
  "offset (n # ns) (i # is) = i * prod_list ns + offset ns is"
| "offset _ _ = 0"

definition get :: "'a tensor \<Rightarrow> nat list \<Rightarrow> 'a" where
  "get t idx = data t ! offset (shape t) idx"

definition full :: "nat list \<Rightarrow> 'a \<Rightarrow> 'a tensor" where
  "full s v = \<lparr>shape = s, data = replicate (prod_list s) v\<rparr>"

definition tmap :: "('a \<Rightarrow> 'b) \<Rightarrow> 'a tensor \<Rightarrow> 'b tensor" where
  "tmap f t = \<lparr>shape = shape t, data = map f (data t)\<rparr>"

datatype error = ValueError string | IndexError | TypeError | RuntimeError

subsection \<open>Broadcasting\<close>

text \<open>
  Two shapes are aligned at their last axes, the shorter one is extended by leading axes
  of size 1, and two aligned sizes must be equal unless one of them is 1.
\<close>

definition pad :: "nat list \<Rightarrow> nat \<Rightarrow> nat list" where
  "pad s n = replicate (n - length s) 1 @ s"

definition broadcast_shapes :: "nat list \<Rightarrow> nat list \<Rightarrow> nat list option" where
  "broadcast_shapes a b =
     (let n = max (length a) (length b); pa = pad a n; pb = pad b n
      in if list_all2 (\<lambda>x y. x = y \<or> x = 1 \<or> y = 1) pa pb
         then Some (map2 (\<lambda>x y. if x = 1 then y else x) pa pb)
         else None)"

definition bidx :: "nat list \<Rightarrow> nat list \<Rightarrow> nat list" where
  "bidx p idx = map2 (\<lambda>n i. if n = 1 then 0 else i) p idx"

definition expand :: "'a tensor \<Rightarrow> nat list \<Rightarrow> 'a tensor" where
  "expand t s =
     (let p = pad (shape t) (length s)
      in \<lparr>shape = s, data = map (\<lambda>idx. data t ! offset p (bidx p idx)) (indices s)\<rparr>)"

definition binop :: "('a \<Rightarrow> 'b \<Rightarrow> 'c) \<Rightarrow> 'a tensor \<Rightarrow> 'b tensor \<Rightarrow> error + 'c tensor" where
  "binop f a b =
     (case broadcast_shapes (shape a) (shape b) of
        None \<Rightarrow> Inl RuntimeError
      | Some s \<Rightarrow> Inr \<lparr>shape = s, data = map2 f (data (expand a s)) (data (expand b s))\<rparr>)"

subsection \<open>Shape operations\<close>

definition squeeze_last :: "'a tensor \<Rightarrow> 'a tensor" where
  "squeeze_last t =
     (if shape t \<noteq> [] \<and> last (shape t) = 1 then t\<lparr>shape := butlast (shape t)\<rparr> else t)"

definition unsqueeze_last :: "'a tensor \<Rightarrow> 'a tensor" where
  "unsqueeze_last t = t\<lparr>shape := shape t @ [1]\<rparr>"

definition select_last0 :: "'a tensor \<Rightarrow> error + 'a tensor" where
  "select_last0 t =
     (if shape t = [] \<or> last (shape t) = 0 then Inl IndexError
      else Inr \<lparr>shape = butlast (shape t),
                data = map (\<lambda>r. data t ! (r * last (shape t)))
                         [0..<prod_list (butlast (shape t))]\<rparr>)"

definition zeros_like :: "real tensor \<Rightarrow> real tensor" where
  "zeros_like t = full (shape t) 0"

definition len :: "'a tensor \<Rightarrow> error + nat" where
  "len t = (case shape t of [] \<Rightarrow> Inl TypeError | n # _ \<Rightarrow> Inr n)"

definition unbind0 :: "'a tensor \<Rightarrow> 'a tensor list" where
  "unbind0 t =
     (case shape t of
        [] \<Rightarrow> []
      | n # ns \<Rightarrow>
          map (\<lambda>i. \<lparr>shape = ns, data = take (prod_list ns) (drop (i * prod_list ns) (data t))\<rparr>)
            [0..<n])"

subsection \<open>Comparing arrays\<close>

text \<open>Two arrays of the same shape agree up to a tolerance at every position.\<close>

definition close_to :: "real \<Rightarrow> real tensor \<Rightarrow> real tensor \<Rightarrow> bool" where
  "close_to tol a b =
     (shape a = shape b \<and> list_all2 (\<lambda>x y. \<bar>x - y\<bar> \<le> tol) (data a) (data b))"

section \<open>The kernels of \<open>botorch.utils.safe_math\<close>\<close>

definition sigmoid :: "real \<Rightarrow> real" where
  "sigmoid x = 1 / (1 + exp (- x))"

text \<open>
  Modelled from the spec: \<open>logexpit\<close> lives in \<open>botorch.utils.safe_math\<close>, which is
  not part of the sources at hand; the specification gives it as
  \<open>logexpit(x) = log(sigmoid(x))\<close>.  The fat-tailed kernel \<open>log_fatmoid\<close> of the same
  module is described only by its tail behaviour, so the functions below take it as a
  parameter.
\<close>

definition logexpit :: "real \<Rightarrow> real" where
  "logexpit x = ln (sigmoid x)"

section \<open>The functions of \<open>botorch/utils/objective.py\<close>\<close>

text \<open>
  A constraint is a callable from a sample batch to an array of constraint values.
  Every function that evaluates constraints returns, next to its result, the calls it
  has made, in order: which callable, on which argument.
\<close>

type_synonym callable = "real tensor \<Rightarrow> real tensor"
type_synonym call = "callable \<times> real tensor"

subsection \<open>\<open>get_objective_weights_transform\<close>\<close>

text \<open>
  \<open>torch.einsum("...m, m", [Y, weights])\<close>: the last axis of \<open>Y\<close> is contracted with the
  only axis of \<open>weights\<close>; the two sizes must agree unless one of them is 1.
\<close>

definition einsum_m :: "real tensor \<Rightarrow> real tensor \<Rightarrow> error + real tensor" where
  "einsum_m Y w =
     (if length (shape w) \<noteq> 1 \<or> shape Y = [] then Inl RuntimeError
      else let mY = last (shape Y); mw = hd (shape w)
           in if mY \<noteq> mw \<and> mY \<noteq> 1 \<and> mw \<noteq> 1 then Inl RuntimeError
              else let m = (if mY = 1 then mw else mY)
                   in Inr \<lparr>shape = butlast (shape Y),
                           data = map (\<lambda>r. \<Sum>j\<leftarrow>[0..<m].
                                     data Y ! (r * mY + (if mY = 1 then 0 else j))
                                       * data w ! (if mw = 1 then 0 else j))
                                    [0..<prod_list (butlast (shape Y))]\<rparr>)"

text \<open>
  The result of \<open>get_objective_weights_transform weights\<close> is a callable; it is applied
  here to \<open>Y\<close> and to the optional second positional argument \<open>X\<close>.  Without weights the
  callable is \<open>lambda Y: Y.squeeze(-1)\<close>, which accepts one argument only.
\<close>

definition get_objective_weights_transform ::
  "real tensor option \<Rightarrow> real tensor \<Rightarrow> real tensor option \<Rightarrow> error + real tensor" where
  "get_objective_weights_transform weights Y X =
     (case weights of
        None \<Rightarrow> (case X of None \<Rightarrow> Inr (squeeze_last Y) | Some _ \<Rightarrow> Inl TypeError)
      | Some w \<Rightarrow> einsum_m Y w)"

subsection \<open>\<open>compute_feasibility_indicator\<close>\<close>

fun feasibility_loop ::
  "callable list \<Rightarrow> real tensor \<Rightarrow> call list \<times> bool tensor \<Rightarrow> call list \<times> (error + bool tensor)" where
  "feasibility_loop [] samples (calls, ind) = (calls, Inr ind)"
| "feasibility_loop (constraint # rest) samples (calls, ind) =
     (let v = constraint samples; calls' = calls @ [(constraint, samples)]
      in case binop (\<and>) ind (tmap (\<lambda>x. x < 0) v) of
           Inl e \<Rightarrow> (calls', Inl e)
         | Inr ind' \<Rightarrow> feasibility_loop rest samples (calls', ind'))"

definition compute_feasibility_indicator ::
  "callable list option \<Rightarrow> real tensor \<Rightarrow> call list \<times> (error + bool tensor)" where
  "compute_feasibility_indicator constraints samples =
     (let ind = full (butlast (shape samples)) True
      in case constraints of
           None \<Rightarrow> ([], Inr ind)
         | Some cs \<Rightarrow> feasibility_loop cs samples ([], ind))"

subsection \<open>\<open>compute_smoothed_feasibility_indicator\<close>\<close>

datatype eta_arg = EtaFloat real | EtaTensor "real tensor"

text \<open>The loop over \<open>zip(constraints, eta)\<close>; it ends with the shorter of the two.\<close>

fun smoothed_loop ::
  "(real \<Rightarrow> real) \<Rightarrow> callable list \<Rightarrow> real tensor list \<Rightarrow> real tensor \<Rightarrow>
     call list \<times> real tensor \<Rightarrow> call list \<times> (error + real tensor)" where
  "smoothed_loop log_sigmoid (constraint # rest) (e # es) samples (calls, is_feasible) =
     (let v = constraint samples; calls' = calls @ [(constraint, samples)]
      in case binop (/) (tmap uminus v) e of
           Inl err \<Rightarrow> (calls', Inl err)
         | Inr q \<Rightarrow>
             (case binop (+) is_feasible (tmap log_sigmoid q) of
                Inl err \<Rightarrow> (calls', Inl err)
              | Inr is_feasible' \<Rightarrow>
                  smoothed_loop log_sigmoid rest es samples (calls', is_feasible')))"
| "smoothed_loop log_sigmoid _ _ samples (calls, is_feasible) = (calls, Inr is_feasible)"

definition compute_smoothed_feasibility_indicator ::
  "(real \<Rightarrow> real) \<Rightarrow> callable list \<Rightarrow> real tensor \<Rightarrow> eta_arg \<Rightarrow> bool \<Rightarrow> bool \<Rightarrow>
     call list \<times> (error + real tensor)" where
  "compute_smoothed_feasibility_indicator log_fatmoid constraints samples eta log' fat =
     (let eta' = (case eta of
                    EtaFloat x \<Rightarrow> full [length constraints] x
                  | EtaTensor t \<Rightarrow> t)
      in case len eta' of
           Inl err \<Rightarrow> ([], Inl err)
         | Inr n \<Rightarrow>
             if n \<noteq> length constraints then
               ([], Inl (ValueError
                 ''Number of provided constraints and number of provided etas do not match.''))
             else if \<not> list_all (\<lambda>x. 0 < x) (data eta') then
               ([], Inl (ValueError ''eta must be positive.''))
             else
               (case select_last0 samples of
                  Inl err \<Rightarrow> ([], Inl err)
                | Inr s0 \<Rightarrow>
                    (let is_feasible = zeros_like s0;
                         log_sigmoid = (if fat then log_fatmoid else logexpit)
                     in case smoothed_loop log_sigmoid constraints (unbind0 eta') samples
                               ([], is_feasible) of
                          (calls, Inl err) \<Rightarrow> (calls, Inl err)
                        | (calls, Inr r) \<Rightarrow> (calls, Inr (if log' then r else tmap exp r)))))"

subsection \<open>\<open>apply_constraints_nonnegative_soft\<close>\<close>

definition apply_constraints_nonnegative_soft ::
  "(real \<Rightarrow> real) \<Rightarrow> real tensor \<Rightarrow> callable list \<Rightarrow> real tensor \<Rightarrow> eta_arg \<Rightarrow>
     call list \<times> (error + real tensor)" where
  "apply_constraints_nonnegative_soft log_fatmoid obj constraints samples eta =
     (case compute_smoothed_feasibility_indicator log_fatmoid constraints samples eta
             False False of
        (calls, Inl err) \<Rightarrow> (calls, Inl err)
      | (calls, Inr w) \<Rightarrow>
          (let w' = (if length (shape obj) = length (shape samples)
                     then unsqueeze_last w else w)
           in (calls, binop (*) (tmap (max 0) obj) w')))"

subsection \<open>\<open>soft_eval_constraint\<close>\<close>

text \<open>The deprecation warning is issued first; it is returned next to the result.\<close>

datatype warning = DeprecationWarning string

definition soft_eval_constraint ::
  "real tensor \<Rightarrow> real \<Rightarrow> warning list \<times> (error + real tensor)" where
  "soft_eval_constraint lhs eta =
     ([DeprecationWarning
         (''`soft_eval_constraint` is deprecated. Please consider `torch.utils.sigmoid` ''
          @ ''with its `fat` and `log` options to compute feasibility indicators.'')],
      if eta \<le> 0 then Inl (ValueError ''eta must be positive.'')
      else Inr (tmap (\<lambda>x. sigmoid (- x / eta)) lhs))"

subsection \<open>\<open>apply_constraints\<close>\<close>

definition apply_constraints ::
  "(real \<Rightarrow> real) \<Rightarrow> real tensor \<Rightarrow> callable list \<Rightarrow> real tensor \<Rightarrow> real \<Rightarrow> eta_arg \<Rightarrow>
     call list \<times> (error + real tensor)" where
  "apply_constraints log_fatmoid obj constraints samples infeasible_cost eta =
     (let obj' = tmap (\<lambda>x. x + infeasible_cost) obj
      in case apply_constraints_nonnegative_soft log_fatmoid obj' constraints samples eta of
           (calls, Inl err) \<Rightarrow> (calls, Inl err)
         | (calls, Inr r) \<Rightarrow> (calls, Inr (tmap (\<lambda>x. x + (- infeasible_cost)) r)))"

section \<open>Facts about arrays\<close>

subsection \<open>Indices and positions\<close>

lemma length_indices: "length (indices s) = prod_list s"
proof (induction s)
  case Nil show ?case by simp
next
  case (Cons n ns)
  have "length (concat (map (\<lambda>i. map ((#) i) (indices ns)) [0..<n])) = n * prod_list ns"
    by (induction n) (simp_all add: Cons.IH)
  then show ?case by simp
qed

lemma concat_blocks: "concat (map (\<lambda>i. map (\<lambda>k. i * p + k) [0..<p]) [0..<n]) = [0..<n * p]"
proof (induction n)
  case 0 show ?case by simp
next
  case (Suc n)
  have "map (\<lambda>k. n * p + k) [0..<p] = [n * p..<n * p + p]"
    by (simp add: map_add_upt add.commute)
  moreover have "[0..<n * p + p] = [0..<n * p] @ [n * p..<n * p + p]"
    by (rule upt_add_eq_append) simp
  ultimately show ?case using Suc by (simp add: add.commute)
qed

lemma map_offset_indices: "map (offset s) (indices s) = [0..<prod_list s]"
proof (induction s)
  case Nil show ?case by simp
next
  case (Cons n ns)
  have "map (offset (n # ns)) (indices (n # ns))
      = concat (map (\<lambda>i. map (\<lambda>k. i * prod_list ns + k) (map (offset ns) (indices ns))) [0..<n])"
    by (simp add: map_concat comp_def)
  also have "\<dots> = [0..<n * prod_list ns]"
    unfolding Cons.IH by (rule concat_blocks)
  finally show ?case by simp
qed

lemma indices_iff: "idx \<in> set (indices s) \<longleftrightarrow> list_all2 (<) idx s"
proof (induction s arbitrary: idx)
  case Nil show ?case by auto
next
  case (Cons n ns)
  show ?case by (cases idx) (force simp: Cons.IH[symmetric])+
qed

lemma offset_less: "list_all2 (<) idx s \<Longrightarrow> offset s idx < prod_list s"
proof -
  assume "list_all2 (<) idx s"
  then have "idx \<in> set (indices s)" by (simp add: indices_iff)
  then have "offset s idx \<in> set (map (offset s) (indices s))" by simp
  then show ?thesis unfolding map_offset_indices by simp
qed

lemma map_nth_offset: "length xs = prod_list s \<Longrightarrow> map (\<lambda>idx. xs ! offset s idx) (indices s) = xs"
proof -
  assume a: "length xs = prod_list s"
  have "map (\<lambda>idx. xs ! offset s idx) (indices s) = map ((!) xs) (map (offset s) (indices s))"
    by (simp add: comp_def)
  also have "\<dots> = xs" unfolding map_offset_indices a[symmetric] by (rule map_nth)
  finally show ?thesis .
qed

subsection \<open>Broadcasting of equal shapes and of scalars\<close>

lemma pad_same [simp]: "pad s (length s) = s"
  by (simp add: pad_def)

lemma length_pad: "length s \<le> n \<Longrightarrow> length (pad s n) = n"
  by (simp add: pad_def)

lemma prod_list_pad [simp]: "prod_list (pad s n) = prod_list s"
  by (simp add: pad_def)

lemma bidx_id: "list_all2 (<) idx s \<Longrightarrow> bidx s idx = idx"
  unfolding bidx_def by (induction idx s rule: list_all2_induct) auto

lemma broadcast_shapes_same [simp]: "broadcast_shapes s s = Some s"
proof -
  have "list_all2 (\<lambda>x y. x = y \<or> x = 1 \<or> y = 1) s s"
    by (simp add: list_all2_same)
  moreover have "map2 (\<lambda>x y. if x = 1 then y else x) s s = s"
    by (induction s) auto
  ultimately show ?thesis by (simp add: broadcast_shapes_def)
qed

lemma expand_same: "valid t \<Longrightarrow> expand t (shape t) = t"
proof -
  assume v: "valid t"
  have "map (\<lambda>idx. data t ! offset (shape t) (bidx (shape t) idx)) (indices (shape t))
      = map (\<lambda>idx. data t ! offset (shape t) idx) (indices (shape t))"
    by (rule map_cong) (simp_all add: indices_iff bidx_id)
  also have "\<dots> = data t"
    using v by (simp add: map_nth_offset valid_def)
  finally show ?thesis by (simp add: expand_def)
qed

lemma length_data_expand [simp]: "length (data (expand t s)) = prod_list s"
  by (simp add: expand_def Let_def length_indices)

lemma shape_expand [simp]: "shape (expand t s) = s"
  by (simp add: expand_def Let_def)

lemma binop_same_shape:
  "valid a \<Longrightarrow> valid b \<Longrightarrow> shape a = shape b \<Longrightarrow>
   binop f a b = Inr \<lparr>shape = shape a, data = map2 f (data a) (data b)\<rparr>"
  using expand_same[of a] expand_same[of b] by (simp add: binop_def)

lemma binop_valid: "binop f a b = Inr c \<Longrightarrow> valid c"
  by (auto simp: binop_def valid_def split: option.splits)

lemma binop_shape: "binop f a b = Inr c \<Longrightarrow> broadcast_shapes (shape a) (shape b) = Some (shape c)"
  by (auto simp: binop_def split: option.splits)

lemma broadcast_shapes_scalar [simp]: "broadcast_shapes s [] = Some s"
proof -
  have "list_all2 (\<lambda>x y. x = y \<or> x = 1 \<or> y = 1) s (replicate (length s) (Suc 0))"
    by (induction s) auto
  moreover have "map2 (\<lambda>x y. if x = 1 then y else x) s (replicate (length s) (Suc 0)) = s"
    by (induction s) auto
  ultimately show ?thesis by (simp add: broadcast_shapes_def pad_def)
qed

lemma bidx_ones: "length idx = n \<Longrightarrow> bidx (replicate n (Suc 0)) idx = replicate n 0"
  unfolding bidx_def by (induction idx arbitrary: n) auto

lemma offset_zeros: "offset s (replicate (length s) 0) = 0"
  by (induction s) auto

lemma offset_ones_zeros: "offset (replicate n (Suc 0)) (replicate n 0) = 0"
  using offset_zeros[of "replicate n (Suc 0)"] by simp

lemma expand_scalar: "expand \<lparr>shape = [], data = [v]\<rparr> s = full s v"
proof -
  have "map (\<lambda>idx. [v] ! offset (replicate (length s) (Suc 0)) (bidx (replicate (length s) (Suc 0)) idx))
          (indices s) = map (\<lambda>idx. v) (indices s)"
  proof (rule map_cong[OF refl])
    fix idx assume "idx \<in> set (indices s)"
    then have "length idx = length s" by (auto simp: indices_iff dest: list_all2_lengthD)
    then show "[v] ! offset (replicate (length s) (Suc 0)) (bidx (replicate (length s) (Suc 0)) idx) = v"
      by (simp add: bidx_ones offset_ones_zeros)
  qed
  then show ?thesis
    by (simp add: expand_def pad_def full_def map_replicate_const length_indices)
qed

lemma map2_replicate_right:
  "length xs = n \<Longrightarrow> map2 f xs (replicate n v) = map (\<lambda>x. f x v) xs"
  by (induction xs arbitrary: n) auto

lemma binop_scalar:
  "valid a \<Longrightarrow> binop f a \<lparr>shape = [], data = [v]\<rparr> = Inr (tmap (\<lambda>x. f x v) a)"
  using expand_same[of a]
  by (simp add: binop_def expand_scalar full_def tmap_def valid_def map2_replicate_right)

lemma map2_replicate_left:
  "length xs = n \<Longrightarrow> map2 f (replicate n v) xs = map (f v) xs"
  by (induction xs arbitrary: n) auto

lemma binop_full_left:
  "valid b \<Longrightarrow> shape b = s \<Longrightarrow> binop f (full s v) b = Inr (tmap (f v) b)"
  using expand_same[of b] expand_same[of "full s v"]
  by (simp add: binop_def full_def tmap_def valid_def map2_replicate_left)

lemma valid_full [simp]: "valid (full s v)"
  by (simp add: valid_def full_def)

lemma shape_full [simp]: "shape (full s v) = s"
  by (simp add: full_def)

lemma valid_tmap [simp]: "valid (tmap f t) = valid t"
  by (simp add: valid_def tmap_def)

lemma shape_tmap [simp]: "shape (tmap f t) = shape t"
  by (simp add: tmap_def)

lemma data_tmap [simp]: "data (tmap f t) = map f (data t)"
  by (simp add: tmap_def)

lemma feasibility_loop_well_shaped:
  assumes "\<forall>c\<in>set cs. valid (c samples) \<and> shape (c samples) = shape ind"
    and "valid ind"
  shows "feasibility_loop cs samples (calls, ind) =
           (calls @ map (\<lambda>c. (c, samples)) cs,
            Inr \<lparr>shape = shape ind,
                 data = map (\<lambda>j. data ind ! j \<and> (\<forall>c\<in>set cs. data (c samples) ! j < 0))
                          [0..<prod_list (shape ind)]\<rparr>)"
  using assms
proof (induction cs arbitrary: calls ind)
  case Nil
  have "map ((!) (data ind)) [0..<prod_list (shape ind)] = data ind"
    using Nil(2) map_nth[of "data ind"] by (simp only: valid_def)
  then show ?case by simp
next
  case (Cons c cs)
  let ?v = "c samples"
  let ?ind' = "\<lparr>shape = shape ind, data = map2 (\<and>) (data ind) (map (\<lambda>x. x < 0) (data ?v))\<rparr>"
  have vv: "valid ?v" "shape ?v = shape ind" using Cons.prems by auto
  have step: "binop (\<and>) ind (tmap (\<lambda>x. x < 0) ?v) = Inr ?ind'"
    using Cons.prems(2) vv by (simp add: binop_same_shape)
  have v': "valid ?ind'" using step by (rule binop_valid)
  have ih: "feasibility_loop cs samples (calls @ [(c, samples)], ?ind') =
           ((calls @ [(c, samples)]) @ map (\<lambda>c. (c, samples)) cs,
            Inr \<lparr>shape = shape ?ind',
                 data = map (\<lambda>j. data ?ind' ! j \<and> (\<forall>c\<in>set cs. data (c samples) ! j < 0))
                          [0..<prod_list (shape ?ind')]\<rparr>)"
    by (rule Cons.IH) (use Cons.prems v' in auto)
  have lens: "length (data ind) = prod_list (shape ind)" "length (data ?v) = prod_list (shape ind)"
    using Cons.prems(2) vv by (simp_all add: valid_def)
  have "map (\<lambda>j. data ?ind' ! j \<and> (\<forall>c\<in>set cs. data (c samples) ! j < 0)) [0..<prod_list (shape ind)]
      = map (\<lambda>j. data ind ! j \<and> (\<forall>c\<in>set (c # cs). data (c samples) ! j < 0)) [0..<prod_list (shape ind)]"
    by (rule map_cong) (use lens in auto)
  then show ?case using step ih by (simp add: Let_def)
qed

lemma csfi_float:
  "compute_smoothed_feasibility_indicator lf cs samples (EtaFloat e) lg fat =
   compute_smoothed_feasibility_indicator lf cs samples (EtaTensor (full [length cs] e)) lg fat"
  by (simp add: compute_smoothed_feasibility_indicator_def)

subsection \<open>Positions along the last axis\<close>

lemma offset_snoc:
  "length idx = length s \<Longrightarrow> offset (s @ [m]) (idx @ [j]) = offset s idx * m + j"
proof (induction s arbitrary: idx)
  case Nil then show ?case by simp
next
  case (Cons n ns)
  then obtain i js where idx: "idx = i # js" by (cases idx) auto
  with Cons show ?case by (simp add: algebra_simps)
qed

lemma nth_indices_offset:
  assumes "list_all2 (<) idx s"
  shows "indices s ! offset s idx = idx"
proof -
  from assms have "idx \<in> set (indices s)" by (simp add: indices_iff)
  then obtain k where k: "k < length (indices s)" "indices s ! k = idx"
    by (auto simp: in_set_conv_nth)
  have "map (offset s) (indices s) ! k = [0..<prod_list s] ! k"
    by (simp only: map_offset_indices)
  then have "offset s idx = k" using k by (simp add: length_indices)
  then show ?thesis using k by simp
qed

lemma einsum_m_vector:
  assumes "shape Y = s @ [m]" "shape w = [m]"
  shows "einsum_m Y w = Inr \<lparr>shape = s,
           data = map (\<lambda>r. \<Sum>j\<leftarrow>[0..<m]. data Y ! (r * m + j) * data w ! j)
                    [0..<prod_list s]\<rparr>"
proof (cases "m = 1")
  case True
  then show ?thesis using assms by (simp add: einsum_m_def)
next
  case False
  then show ?thesis using assms by (simp add: einsum_m_def)
qed

subsection \<open>The sigmoid and its logarithm\<close>

lemma sigmoid_pos: "0 < sigmoid x"
  by (simp add: sigmoid_def add_pos_pos)

lemma sigmoid_less_one: "sigmoid x < 1"
  by (simp add: sigmoid_def add_pos_pos)

lemma exp_logexpit: "exp (logexpit x) = sigmoid x"
  by (simp add: logexpit_def sigmoid_pos)

lemma logexpit_nonpos: "logexpit x \<le> 0"
  using sigmoid_pos[of x] sigmoid_less_one[of x] by (simp add: logexpit_def)

lemma sigmoid_neg: "sigmoid (- x) = 1 - sigmoid x"
proof -
  define e where "e = exp x"
  have e: "0 < e" by (simp add: e_def)
  have "1 / (1 + e) = 1 - 1 / (1 + inverse e)"
    using e by (simp add: field_simps)
  then show ?thesis by (simp add: sigmoid_def exp_minus e_def)
qed

lemma sigmoid_one_ge: "2 / 3 \<le> sigmoid 1"
proof -
  have "2 \<le> exp (1::real)" using exp_ge_add_one_self[of "1::real"] by simp
  then have "exp (- 1 :: real) \<le> 1 / 2"
    by (simp add: exp_minus field_simps)
  then have "1 + exp (- 1 :: real) \<le> 3 / 2" by simp
  moreover have "0 < 1 + exp (- 1 :: real)" by (simp add: add_pos_pos)
  ultimately have "1 / (3 / 2) \<le> 1 / (1 + exp (- 1 :: real))"
    by (intro divide_left_mono) simp_all
  then show ?thesis by (simp add: sigmoid_def)
qed

lemma sigmoid_one_le: "sigmoid 1 \<le> 3 / 4"
proof -
  have "exp (1::real) \<le> 3" by (rule exp_le)
  then have "1 / 3 \<le> exp (- 1 :: real)"
    by (simp add: exp_minus field_simps)
  then have "4 / 3 \<le> 1 + exp (- 1 :: real)" by simp
  then have "1 / (1 + exp (- 1 :: real)) \<le> 1 / (4 / 3)"
    by (intro divide_left_mono) simp_all
  then show ?thesis by (simp add: sigmoid_def)
qed

subsection \<open>The smoothing loop on constraints of the natural shape\<close>

lemma unbind0_vector:
  assumes "valid t" "shape t = [k]"
  shows "unbind0 t = map (\<lambda>e. \<lparr>shape = [], data = [e]\<rparr>) (data t)"
proof -
  have len: "length (data t) = k" using assms by (simp add: valid_def)
  have "take (Suc 0) (drop i (data t)) = [data t ! i]" if "i < k" for i
    using that len by (simp add: take_Suc_conv_app_nth Cons_nth_drop_Suc[symmetric])
  then have "map (\<lambda>i. \<lparr>shape = [], data = take (Suc 0) (drop i (data t))\<rparr>) [0..<k]
           = map (\<lambda>i. \<lparr>shape = [], data = [data t ! i]\<rparr>) [0..<k]"
    by simp
  also have "\<dots> = map (\<lambda>e. \<lparr>shape = [], data = [e]\<rparr>) (map ((!) (data t)) [0..<length (data t)])"
    by (simp add: len comp_def)
  finally show ?thesis using assms by (simp add: unbind0_def map_nth)
qed

lemma smoothed_loop_well_shaped:
  assumes "length es = length cs"
    and "\<forall>c\<in>set cs. valid (c samples) \<and> shape (c samples) = shape acc"
    and "valid acc"
  shows "smoothed_loop ls cs (map (\<lambda>e. \<lparr>shape = [], data = [e]\<rparr>) es) samples (calls, acc) =
           (calls @ map (\<lambda>c. (c, samples)) cs,
            Inr \<lparr>shape = shape acc,
                 data = map (\<lambda>j. data acc ! j
                              + (\<Sum>(c, e)\<leftarrow>zip cs es. ls (- data (c samples) ! j / e)))
                          [0..<prod_list (shape acc)]\<rparr>)"
  using assms
proof (induction cs arbitrary: es calls acc)
  case Nil
  have "map ((!) (data acc)) [0..<prod_list (shape acc)] = data acc"
    using Nil(3) map_nth[of "data acc"] by (simp only: valid_def)
  then show ?case using Nil by simp
next
  case (Cons c cs)
  then obtain e es' where es: "es = e # es'" by (cases es) auto
  let ?v = "c samples"
  let ?acc' = "\<lparr>shape = shape acc,
                data = map2 (+) (data acc) (map (\<lambda>x. ls (- x / e)) (data ?v))\<rparr>"
  have vv: "valid ?v" "shape ?v = shape acc" using Cons.prems by auto
  have q: "binop (/) (tmap uminus ?v) \<lparr>shape = [], data = [e]\<rparr>
             = Inr (tmap (\<lambda>x. x / e) (tmap uminus ?v))"
    using vv by (simp add: binop_scalar)
  have step: "binop (+) acc (tmap ls (tmap (\<lambda>x. x / e) (tmap uminus ?v))) = Inr ?acc'"
    using Cons.prems(3) vv by (simp add: binop_same_shape comp_def)
  have v': "valid ?acc'" using step by (rule binop_valid)
  have ih: "smoothed_loop ls cs (map (\<lambda>e. \<lparr>shape = [], data = [e]\<rparr>) es') samples
              (calls @ [(c, samples)], ?acc') =
           ((calls @ [(c, samples)]) @ map (\<lambda>c. (c, samples)) cs,
            Inr \<lparr>shape = shape ?acc',
                 data = map (\<lambda>j. data ?acc' ! j
                              + (\<Sum>(c, e)\<leftarrow>zip cs es'. ls (- data (c samples) ! j / e)))
                          [0..<prod_list (shape ?acc')]\<rparr>)"
    by (rule Cons.IH) (use Cons.prems v' es in auto)
  have lens: "length (data acc) = prod_list (shape acc)" "length (data ?v) = prod_list (shape acc)"
    using Cons.prems(3) vv by (simp_all add: valid_def)
  have "map (\<lambda>j. data ?acc' ! j + (\<Sum>(c, e)\<leftarrow>zip cs es'. ls (- data (c samples) ! j / e)))
            [0..<prod_list (shape acc)]
      = map (\<lambda>j. data acc ! j + (\<Sum>(c, e)\<leftarrow>zip (c # cs) es. ls (- data (c samples) ! j / e)))
            [0..<prod_list (shape acc)]"
    by (rule map_cong) (use lens es in auto)
  then show ?case using q step ih es by (simp add: Let_def)
qed

lemma smoothed_well_shaped:
  assumes "valid eta" "shape eta = [length cs]" "\<forall>e\<in>set (data eta). 0 < e"
    and "shape samples \<noteq> []" "last (shape samples) \<noteq> 0"
    and "\<forall>c\<in>set cs. valid (c samples) \<and> shape (c samples) = butlast (shape samples)"
  shows "compute_smoothed_feasibility_indicator lf cs samples (EtaTensor eta) lg fat =
           (map (\<lambda>c. (c, samples)) cs,
            Inr \<lparr>shape = butlast (shape samples),
                 data = map (\<lambda>j. (if lg then id else exp)
                                (\<Sum>(c, e)\<leftarrow>zip cs (data eta).
                                   (if fat then lf else logexpit) (- data (c samples) ! j / e)))
                          [0..<prod_list (butlast (shape samples))]\<rparr>)"
proof -
  let ?s = "butlast (shape samples)"
  let ?ls = "if fat then lf else logexpit"
  let ?acc = "full ?s 0 :: real tensor"
  have len: "length (data eta) = length cs" using assms(1,2) by (simp add: valid_def)
  have pos: "list_all (\<lambda>x. 0 < x) (data eta)" using assms(3) by (simp add: list_all_iff)
  have sel: "select_last0 samples = Inr \<lparr>shape = ?s,
      data = map (\<lambda>r. data samples ! (r * last (shape samples))) [0..<prod_list ?s]\<rparr>"
    using assms(4,5) by (simp add: select_last0_def)
  have loop: "smoothed_loop ?ls cs (map (\<lambda>e. \<lparr>shape = [], data = [e]\<rparr>) (data eta)) samples ([], ?acc) =
           ([] @ map (\<lambda>c. (c, samples)) cs,
            Inr \<lparr>shape = shape ?acc,
                 data = map (\<lambda>j. data ?acc ! j
                              + (\<Sum>(c, e)\<leftarrow>zip cs (data eta). ?ls (- data (c samples) ! j / e)))
                          [0..<prod_list (shape ?acc)]\<rparr>)"
    by (rule smoothed_loop_well_shaped) (use len assms(6) in auto)
  have d: "map (\<lambda>j. data ?acc ! j + (\<Sum>(c, e)\<leftarrow>zip cs (data eta). ?ls (- data (c samples) ! j / e)))
             [0..<prod_list ?s]
         = map (\<lambda>j. (\<Sum>(c, e)\<leftarrow>zip cs (data eta). ?ls (- data (c samples) ! j / e)))
             [0..<prod_list ?s]"
    by (rule map_cong) (simp_all add: full_def)
  show ?thesis
    using assms(2) pos sel loop d unbind0_vector[OF assms(1,2)]
    by (simp add: compute_smoothed_feasibility_indicator_def len_def zeros_like_def tmap_def
        comp_def)
qed

lemma sum_list_zip_nth:
  "length es = length cs \<Longrightarrow>
   (\<Sum>(c, e)\<leftarrow>zip cs es. g c e) = (\<Sum>i<length cs. g (cs ! i) (es ! i))"
proof -
  assume l: "length es = length cs"
  have "(\<Sum>(c, e)\<leftarrow>zip cs es. g c e) = (\<Sum>i = 0..<length (zip cs es). map (\<lambda>(c, e). g c e) (zip cs es) ! i)"
    by (simp add: sum_list_sum_nth)
  also have "\<dots> = (\<Sum>i = 0..<length cs. g (cs ! i) (es ! i))"
    using l by (intro sum.cong) auto
  finally show ?thesis by (simp add: atLeast0LessThan)
qed

lemma map_nth_upt: "map (\<lambda>j. f (xs ! j)) [0..<length xs] = map f xs"
proof -
  have "map (\<lambda>j. f (xs ! j)) [0..<length xs] = map f (map ((!) xs) [0..<length xs])"
    by (simp add: comp_def)
  then show ?thesis by (simp only: map_nth)
qed

lemma smoothed_single_constant:
  assumes "0 < eta" "valid lhs" "shape samples = shape lhs @ [m]" "m \<noteq> 0"
  shows "compute_smoothed_feasibility_indicator lf [\<lambda>_. lhs] samples (EtaFloat eta) False False =
           ([(\<lambda>_. lhs, samples)], Inr (tmap (\<lambda>x. sigmoid (- x / eta)) lhs))"
proof -
  have "compute_smoothed_feasibility_indicator lf [\<lambda>_. lhs] samples (EtaTensor (full [length [\<lambda>_::real tensor. lhs]] eta)) False False =
           (map (\<lambda>c. (c, samples)) [\<lambda>_. lhs],
            Inr \<lparr>shape = butlast (shape samples),
                 data = map (\<lambda>j. (if False then id else exp)
                                (\<Sum>(c, e)\<leftarrow>zip [\<lambda>_. lhs] (data (full [length [\<lambda>_::real tensor. lhs]] eta)).
                                   (if False then lf else logexpit) (- data (c samples) ! j / e)))
                          [0..<prod_list (butlast (shape samples))]\<rparr>)"
    by (rule smoothed_well_shaped) (use assms in \<open>simp_all add: full_def valid_def\<close>)
  moreover have "map (\<lambda>j. sigmoid (- data lhs ! j / eta)) [0..<prod_list (shape lhs)]
       = map (\<lambda>x. sigmoid (- x / eta)) (data lhs)"
    using map_nth_upt[of "\<lambda>x. sigmoid (- x / eta)" "data lhs"] assms(2) by (simp add: valid_def)
  ultimately show ?thesis
    using assms(3) by (simp add: csfi_float full_def exp_logexpit tmap_def)
qed

lemma smoothed_single_well_shaped:
  assumes "0 < e" "shape samples \<noteq> []" "last (shape samples) \<noteq> 0"
    and "valid (c samples)" "shape (c samples) = butlast (shape samples)"
  shows "compute_smoothed_feasibility_indicator lf [c] samples
           (EtaTensor \<lparr>shape = [1], data = [e]\<rparr>) lg fat =
           ([(c, samples)],
            Inr \<lparr>shape = butlast (shape samples),
                 data = map (\<lambda>j. (if lg then id else exp)
                                ((if fat then lf else logexpit) (- data (c samples) ! j / e)))
                          [0..<prod_list (butlast (shape samples))]\<rparr>)"
  using smoothed_well_shaped[of "\<lparr>shape = [1], data = [e]\<rparr>" "[c]" samples lf lg fat] assms
  by (simp add: valid_def)

lemma one_minus_sigmoid_le: "1 - sigmoid t \<le> exp (- t)"
proof -
  have "1 - sigmoid t = sigmoid (- t)" by (simp add: sigmoid_neg)
  also have "\<dots> = 1 / (1 + exp t)" by (simp add: sigmoid_def)
  also have "\<dots> \<le> 1 / exp t" by (intro divide_left_mono) (simp_all add: add_pos_pos)
  also have "\<dots> = exp (- t)" by (simp add: exp_minus field_simps)
  finally show ?thesis .
qed

lemma map2_replicate_mult:
  "length xs = n \<Longrightarrow> map2 (*) (map f xs) (replicate n (v::real)) = map (\<lambda>x. f x * v) xs"
  by (induction xs arbitrary: n) auto

lemma apply_constraints_fully_feasible:
  assumes "0 < eta" "valid obj" "shape samples = shape obj @ [m]" "m \<noteq> 0"
  shows "apply_constraints lf obj [\<lambda>x. full (butlast (shape x)) (- 1)] samples M (EtaFloat eta) =
           ([(\<lambda>x. full (butlast (shape x)) (- 1), samples)],
            Inr (tmap (\<lambda>x. max 0 (x + M) * sigmoid (1 / eta) - M) obj))"
proof -
  let ?c = "\<lambda>x :: real tensor. full (butlast (shape x)) (- 1 :: real)"
  let ?w = "full (shape obj) (sigmoid (1 / eta))"
  let ?s = "butlast (shape samples)"
  have s: "?s = shape obj" using assms(3) by simp
  have "compute_smoothed_feasibility_indicator lf [?c] samples
           (EtaTensor \<lparr>shape = [1], data = [eta]\<rparr>) False False =
           ([(?c, samples)],
            Inr \<lparr>shape = ?s,
                 data = map (\<lambda>j. (if False then id else exp)
                                ((if False then lf else logexpit) (- data (?c samples) ! j / eta)))
                          [0..<prod_list ?s]\<rparr>)"
    by (rule smoothed_single_well_shaped) (use assms in simp_all)
  moreover have "map (\<lambda>j. exp (logexpit (- data (?c samples) ! j / eta))) [0..<prod_list ?s]
      = map (\<lambda>j. sigmoid (1 / eta)) [0..<prod_list ?s]"
    by (rule map_cong) (simp_all add: full_def exp_logexpit)
  ultimately have w: "compute_smoothed_feasibility_indicator lf [?c] samples (EtaFloat eta) False False
      = ([(?c, samples)], Inr ?w)"
    using s by (simp add: csfi_float full_def map_replicate_const)
  have dims: "length (shape (tmap (\<lambda>x. x + M) obj)) \<noteq> length (shape samples)"
    using assms(3) by simp
  have mul: "binop (*) (tmap (max 0) (tmap (\<lambda>x. x + M) obj)) ?w
      = Inr \<lparr>shape = shape obj,
             data = map2 (*) (map (max 0) (map (\<lambda>x. x + M) (data obj)))
                      (replicate (prod_list (shape obj)) (sigmoid (1 / eta)))\<rparr>"
    using assms(2) binop_same_shape[of "tmap (max 0) (tmap (\<lambda>x. x + M) obj)" ?w "(*)"]
    by (simp add: full_def valid_def)
  have "map2 (*) (map (max 0) (map (\<lambda>x. x + M) (data obj)))
            (replicate (prod_list (shape obj)) (sigmoid (1 / eta)))
      = map (\<lambda>x. max 0 (x + M) * sigmoid (1 / eta)) (data obj)"
    using assms(2) map2_replicate_mult[of "data obj" "prod_list (shape obj)" "\<lambda>x. max 0 (x + M)" "sigmoid (1 / eta)"]
    by (simp add: valid_def comp_def)
  with mul have mul': "binop (*) (tmap (max 0) (tmap (\<lambda>x. x + M) obj)) ?w
      = Inr \<lparr>shape = shape obj, data = map (\<lambda>x. max 0 (x + M) * sigmoid (1 / eta)) (data obj)\<rparr>"
    by simp
  show ?thesis
    using w dims mul'
    by (simp add: apply_constraints_def apply_constraints_nonnegative_soft_def Let_def tmap_def
        comp_def)
qed

subsection \<open>Broadcasting along a trailing axis\<close>

lemma bidx_snoc:
  "length idx = length s \<Longrightarrow>
   bidx (s @ [n]) (idx @ [j]) = bidx s idx @ [if n = 1 then 0 else j]"
  by (simp add: bidx_def)

lemma broadcast_shapes_trailing_one: "broadcast_shapes (s @ [m]) (s @ [1]) = Some (s @ [m])"
proof -
  have "list_all2 (\<lambda>x y. x = y \<or> x = 1 \<or> y = 1) (s @ [m]) (s @ [1])"
    by (intro list_all2_appendI) (simp_all add: list_all2_same)
  moreover have "map2 (\<lambda>x y. if x = 1 then y else x) s s = s"
    by (induction s) auto
  ultimately show ?thesis
    by (simp add: broadcast_shapes_def pad_def)
qed

lemma list_all2_less_snoc:
  "list_all2 (<) idx s \<Longrightarrow> j < m \<Longrightarrow> list_all2 (<) (idx @ [j]) (s @ [m])"
  by (intro list_all2_appendI) simp_all

lemma get_expand_trailing_one:
  assumes "list_all2 (<) idx s" "j < m" and that: "shape w = s"
  shows "get (expand (unsqueeze_last w) (s @ [m])) (idx @ [j]) = get w idx"
proof -
  have l: "length idx = length s" using assms(1) by (rule list_all2_lengthD)
  have i: "list_all2 (<) (idx @ [j]) (s @ [m])" using assms(1,2) by (rule list_all2_less_snoc)
  have o: "offset (s @ [m]) (idx @ [j]) < length (indices (s @ [m]))"
    using offset_less[OF i] by (simp add: length_indices)
  have "get (expand (unsqueeze_last w) (s @ [m])) (idx @ [j])
      = data w ! offset (s @ [1]) (bidx (s @ [1]) (indices (s @ [m]) ! offset (s @ [m]) (idx @ [j])))"
    using o that by (simp add: get_def expand_def unsqueeze_last_def pad_def Let_def)
  also have "\<dots> = data w ! offset (s @ [1]) (bidx (s @ [1]) (idx @ [j]))"
    by (simp only: nth_indices_offset[OF i])
  also have "\<dots> = data w ! offset s idx"
    using l assms(1) by (simp add: bidx_snoc bidx_id offset_snoc)
  finally show ?thesis using that by (simp add: get_def)
qed

lemma binop_trailing_one:
  assumes "valid a" "shape a = s @ [m]" "shape w = s"
  shows "\<exists>Z. binop f a (unsqueeze_last w) = Inr Z \<and> shape Z = s @ [m] \<and> valid Z
           \<and> (\<forall>idx j. list_all2 (<) idx s \<and> j < m \<longrightarrow>
                 get Z (idx @ [j]) = f (get a (idx @ [j])) (get w idx))"
proof -
  let ?S = "s @ [m]"
  let ?Z = "\<lparr>shape = ?S, data = map2 f (data a) (data (expand (unsqueeze_last w) ?S))\<rparr>"
  have e: "binop f a (unsqueeze_last w) = Inr ?Z"
    using assms expand_same[of a]
    by (simp add: binop_def unsqueeze_last_def broadcast_shapes_trailing_one[unfolded One_nat_def])
  have la: "length (data a) = prod_list ?S" using assms(1,2) by (simp add: valid_def)
  have g: "get ?Z (idx @ [j]) = f (get a (idx @ [j])) (get w idx)"
    if i: "list_all2 (<) idx s" and j: "j < m" for idx j
  proof -
    have o: "offset ?S (idx @ [j]) < prod_list ?S"
      using list_all2_less_snoc[OF i j] by (rule offset_less)
    have "get ?Z (idx @ [j])
        = f (data a ! offset ?S (idx @ [j]))
            (data (expand (unsqueeze_last w) ?S) ! offset ?S (idx @ [j]))"
      using o la by (simp add: get_def)
    also have "data (expand (unsqueeze_last w) ?S) ! offset ?S (idx @ [j])
        = get (expand (unsqueeze_last w) ?S) (idx @ [j])"
      by (simp add: get_def)
    also have "\<dots> = get w idx" using i j assms(3) by (rule get_expand_trailing_one)
    finally show ?thesis using assms(2) by (simp add: get_def)
  qed
  have "valid ?Z" using la by (simp add: valid_def)
  with e g show ?thesis by (intro exI[of _ ?Z]) simp
qed

lemma get_tmap: "offset (shape t) idx < length (data t) \<Longrightarrow> get (tmap f t) idx = f (get t idx)"
  by (simp add: get_def)

lemma binop_broadcast_example:
  "binop (*) (tmap (max 0) \<lparr>shape = [2, 1, 1], data = [1, 1 :: real]\<rparr>) (full [2] 1)
     = Inr \<lparr>shape = [2, 1, 2], data = [1, 1, 1, 1]\<rparr>"
  by (simp add: binop_def broadcast_shapes_def pad_def expand_def bidx_def Let_def tmap_def
      full_def upt_rec)

subsection \<open>Elements of a broadcast result\<close>

lemma bidx_in_range:
  assumes "list_all2 (\<lambda>n m. n = 1 \<or> n = m) p s" "list_all2 (<) idx s"
  shows "list_all2 (<) (bidx p idx) p"
proof -
  have l: "length p = length s" "length idx = length s"
    using assms by (auto dest: list_all2_lengthD)
  show ?thesis
    unfolding list_all2_conv_all_nth
  proof (intro conjI allI impI)
    show "length (bidx p idx) = length p" using l by (simp add: bidx_def)
  next
    fix i assume "i < length (bidx p idx)"
    then have i: "i < length s" using l by (simp add: bidx_def)
    have "p ! i = 1 \<or> p ! i = s ! i" using assms(1) i l by (simp add: list_all2_conv_all_nth)
    moreover have "idx ! i < s ! i" using assms(2) i l by (simp add: list_all2_conv_all_nth)
    ultimately show "bidx p idx ! i < p ! i" using i l by (auto simp: bidx_def)
  qed
qed

lemma broadcast_shapes_compat:
  assumes "broadcast_shapes a b = Some s"
  shows "list_all2 (\<lambda>n m. n = 1 \<or> n = m) (pad a (length s)) s"
    and "list_all2 (\<lambda>n m. n = 1 \<or> n = m) (pad b (length s)) s"
proof -
  let ?n = "max (length a) (length b)"
  let ?pa = "pad a ?n" and ?pb = "pad b ?n"
  have la: "length ?pa = ?n" and lb: "length ?pb = ?n" by (simp_all add: pad_def)
  from assms have c: "list_all2 (\<lambda>x y. x = y \<or> x = 1 \<or> y = 1) ?pa ?pb"
    and s: "s = map2 (\<lambda>x y. if x = 1 then y else x) ?pa ?pb"
    by (auto simp: broadcast_shapes_def Let_def split: if_splits)
  have ls: "length s = ?n" using s la lb by simp
  have ci: "?pa ! i = ?pb ! i \<or> ?pa ! i = 1 \<or> ?pb ! i = 1" if "i < ?n" for i
    using c that la by (simp add: list_all2_conv_all_nth)
  have si: "s ! i = (if ?pa ! i = 1 then ?pb ! i else ?pa ! i)" if "i < ?n" for i
    using that la lb by (simp add: s)
  show "list_all2 (\<lambda>n m. n = 1 \<or> n = m) (pad a (length s)) s"
    unfolding ls list_all2_conv_all_nth using la ls si by auto
  have "list_all2 (\<lambda>n m. n = 1 \<or> n = m) ?pb s"
    unfolding list_all2_conv_all_nth
  proof (intro conjI allI impI)
    show "length ?pb = length s" using lb ls by simp
  next
    fix i assume "i < length ?pb"
    then have i: "i < ?n" using lb by simp
    show "?pb ! i = 1 \<or> ?pb ! i = s ! i"
      using ci[OF i] si[OF i] by auto
  qed
  then show "list_all2 (\<lambda>n m. n = 1 \<or> n = m) (pad b (length s)) s"
    by (simp only: ls)
qed

lemma expand_subset:
  assumes "valid t" "list_all2 (\<lambda>n m. n = 1 \<or> n = m) (pad (shape t) (length s)) s"
  shows "set (data (expand t s)) \<subseteq> set (data t)"
proof
  fix x assume "x \<in> set (data (expand t s))"
  then obtain idx where idx: "idx \<in> set (indices s)"
      and x: "x = data t ! offset (pad (shape t) (length s))
                          (bidx (pad (shape t) (length s)) idx)"
    by (auto simp: expand_def Let_def)
  from idx have "list_all2 (<) idx s" by (simp add: indices_iff)
  with assms(2) have "list_all2 (<) (bidx (pad (shape t) (length s)) idx) (pad (shape t) (length s))"
    by (rule bidx_in_range)
  then have "offset (pad (shape t) (length s)) (bidx (pad (shape t) (length s)) idx)
      < prod_list (pad (shape t) (length s))"
    by (rule offset_less)
  then show "x \<in> set (data t)" using assms(1) x by (simp add: valid_def)
qed

lemma binop_elements:
  assumes "valid a" "valid b" "binop f a b = Inr c" "z \<in> set (data c)"
  shows "\<exists>x\<in>set (data a). \<exists>y\<in>set (data b). z = f x y"
proof -
  from assms(3) obtain s where s: "broadcast_shapes (shape a) (shape b) = Some s"
    and c: "c = \<lparr>shape = s, data = map2 f (data (expand a s)) (data (expand b s))\<rparr>"
    by (auto simp: binop_def split: option.splits)
  from assms(4) c obtain x y where xy: "(x, y) \<in> set (zip (data (expand a s)) (data (expand b s)))"
      and z: "z = f x y"
    by auto
  from xy have "x \<in> set (data (expand a s))" "y \<in> set (data (expand b s))"
    by (auto dest: set_zip_leftD set_zip_rightD)
  then have "x \<in> set (data a)" "y \<in> set (data b)"
    using expand_subset[OF assms(1) broadcast_shapes_compat(1)[OF s]]
      expand_subset[OF assms(2) broadcast_shapes_compat(2)[OF s]] by auto
  with z show ?thesis by blast
qed

lemma smoothed_loop_nonpos:
  assumes "smoothed_loop ls cs es samples (calls, acc) = (calls', Inr r)"
    and "valid acc" "\<forall>x\<in>set (data acc). x \<le> 0" "\<forall>x. ls x \<le> (0::real)"
  shows "valid r \<and> (\<forall>x\<in>set (data r). x \<le> 0)"
  using assms
proof (induction cs arbitrary: es calls acc)
  case Nil
  then show ?case by simp
next
  case (Cons c cs)
  show ?case
  proof (cases es)
    case Nil
    with Cons.prems show ?thesis by simp
  next
    case (Cons e es')
    let ?calls = "calls @ [(c, samples)]"
    from Cons.prems(1) Cons obtain q where q: "binop (/) (tmap uminus (c samples)) e = Inr q"
      by (auto simp: Let_def split: sum.splits)
    from Cons.prems(1) Cons q obtain acc' where acc': "binop (+) acc (tmap ls q) = Inr acc'"
      by (auto simp: Let_def split: sum.splits)
    from Cons.prems(1) Cons q acc'
    have loop: "smoothed_loop ls cs es' samples (?calls, acc') = (calls', Inr r)"
      by (simp add: Let_def)
    have vq: "valid (tmap ls q)" using binop_valid[OF q] by simp
    have v': "valid acc'" using acc' by (rule binop_valid)
    have "z \<le> 0" if "z \<in> set (data acc')" for z
    proof -
      from binop_elements[OF Cons.prems(2) vq acc' that]
      obtain x y where "x \<in> set (data acc)" "y \<in> set (data (tmap ls q))" "z = x + y"
        by blast
      moreover have "y \<le> 0" using \<open>y \<in> set (data (tmap ls q))\<close> Cons.prems(4) by auto
      ultimately show ?thesis using Cons.prems(3) by fastforce
    qed
    then have "\<forall>x\<in>set (data acc'). x \<le> 0" by blast
    with loop v' show ?thesis using Cons.prems(4) by (rule Cons.IH)
  qed
qed

lemma smoothed_result_loop:
  assumes "compute_smoothed_feasibility_indicator lf cs samples eta lg fat = (calls, Inr t)"
  shows "\<exists>s0 es r. smoothed_loop (if fat then lf else logexpit) cs es samples
                       ([], full s0 0) = (calls, Inr r)
                   \<and> t = (if lg then r else tmap exp r)"
  using assms
  by (auto simp: compute_smoothed_feasibility_indicator_def Let_def zeros_like_def
      split: sum.splits if_splits prod.splits)

lemma smoothed_no_constraints:
  "shape samples \<noteq> [] \<Longrightarrow> last (shape samples) \<noteq> 0 \<Longrightarrow>
   compute_smoothed_feasibility_indicator lf [] samples (EtaFloat e) lg fat =
     ([], Inr (full (butlast (shape samples)) (if lg then 0 else 1)))"
  by (simp add: compute_smoothed_feasibility_indicator_def len_def full_def select_last0_def
      unbind0_def zeros_like_def tmap_def)

section \<open>The hard feasibility indicator\<close>

text \<open>
  Claim C8.  \<open>compute_feasibility_indicator\<close> returns the all-true array of the sample
  batch's leading shape when the constraint list is absent or empty.  When every
  constraint maps the batch to a well-formed array of that leading shape, the result is
  the array whose entry at each position is the conjunction, over the constraints, of
  \<open>constraint(samples) < 0\<close> at that position, and the calls made are exactly one call of
  each constraint on \<open>samples\<close>, in the order of the list.
\<close>

theorem feasibility_indicator_conjunction:
  "compute_feasibility_indicator None samples = ([], Inr (full (butlast (shape samples)) True))
 \<and> compute_feasibility_indicator (Some []) samples = ([], Inr (full (butlast (shape samples)) True))
 \<and> ((\<forall>c\<in>set cs. valid (c samples) \<and> shape (c samples) = butlast (shape samples)) \<longrightarrow>
      compute_feasibility_indicator (Some cs) samples =
        (map (\<lambda>c. (c, samples)) cs,
         Inr \<lparr>shape = butlast (shape samples),
              data = map (\<lambda>j. \<forall>c\<in>set cs. data (c samples) ! j < 0)
                       [0..<prod_list (butlast (shape samples))]\<rparr>))"
proof (intro conjI impI)
  show "compute_feasibility_indicator None samples = ([], Inr (full (butlast (shape samples)) True))"
    by (simp add: compute_feasibility_indicator_def)
  show "compute_feasibility_indicator (Some []) samples = ([], Inr (full (butlast (shape samples)) True))"
    by (simp add: compute_feasibility_indicator_def)
next
  assume a: "\<forall>c\<in>set cs. valid (c samples) \<and> shape (c samples) = butlast (shape samples)"
  let ?ind = "full (butlast (shape samples)) True :: bool tensor"
  have "feasibility_loop cs samples ([], ?ind) =
           ([] @ map (\<lambda>c. (c, samples)) cs,
            Inr \<lparr>shape = shape ?ind,
                 data = map (\<lambda>j. data ?ind ! j \<and> (\<forall>c\<in>set cs. data (c samples) ! j < 0))
                          [0..<prod_list (shape ?ind)]\<rparr>)"
    by (rule feasibility_loop_well_shaped) (use a in auto)
  moreover have "map (\<lambda>j. data ?ind ! j \<and> (\<forall>c\<in>set cs. data (c samples) ! j < 0)) [0..<prod_list (butlast (shape samples))]
     = map (\<lambda>j. \<forall>c\<in>set cs. data (c samples) ! j < 0) [0..<prod_list (butlast (shape samples))]"
    by (rule map_cong) (simp_all add: full_def)
  ultimately show "compute_feasibility_indicator (Some cs) samples =
        (map (\<lambda>c. (c, samples)) cs,
         Inr \<lparr>shape = butlast (shape samples),
              data = map (\<lambda>j. \<forall>c\<in>set cs. data (c samples) ! j < 0)
                       [0..<prod_list (butlast (shape samples))]\<rparr>)"
    by (simp add: compute_feasibility_indicator_def)
qed

theorem feasibility_indicator_conjunction_witness:
  "compute_feasibility_indicator
     (Some [squeeze_last, \<lambda>x. tmap (\<lambda>v. v - 3) (squeeze_last x)])
     \<lparr>shape = [2, 1], data = [- 1, 2]\<rparr>
   = ([(squeeze_last, \<lparr>shape = [2, 1], data = [- 1, 2]\<rparr>),
       (\<lambda>x. tmap (\<lambda>v. v - 3) (squeeze_last x), \<lparr>shape = [2, 1], data = [- 1, 2]\<rparr>)],
      Inr \<lparr>shape = [2], data = [True, False]\<rparr>)"
  using feasibility_indicator_conjunction[of "\<lparr>shape = [2, 1], data = [- 1, 2]\<rparr>"
      "[squeeze_last, \<lambda>x. tmap (\<lambda>v. v - 3) (squeeze_last x)]"]
  by (simp add: valid_def squeeze_last_def tmap_def upt_rec)

section \<open>The smoothed feasibility indicator\<close>

text \<open>
  Claim C2.  A one-dimensional temperature tensor whose length differs from the number
  of constraints makes \<open>compute_smoothed_feasibility_indicator\<close> fail with the
  count-mismatch \<open>ValueError\<close>, and a temperature that is not strictly positive makes it
  fail with the positivity \<open>ValueError\<close>; in both cases no constraint has been called.
  A scalar temperature behaves as the tensor holding that value once per constraint, so
  with at least one constraint a non-positive scalar fails the same positivity check.
\<close>

theorem smoothed_indicator_validation:
  "(shape t = [n] \<and> n \<noteq> length cs \<longrightarrow>
      compute_smoothed_feasibility_indicator lf cs samples (EtaTensor t) lg fat =
        ([], Inl (ValueError
           ''Number of provided constraints and number of provided etas do not match.'')))
 \<and> (shape t = [length cs] \<and> (\<exists>x\<in>set (data t). x \<le> 0) \<longrightarrow>
      compute_smoothed_feasibility_indicator lf cs samples (EtaTensor t) lg fat =
        ([], Inl (ValueError ''eta must be positive.'')))
 \<and> compute_smoothed_feasibility_indicator lf cs samples (EtaFloat e) lg fat =
      compute_smoothed_feasibility_indicator lf cs samples (EtaTensor (full [length cs] e)) lg fat
 \<and> (cs \<noteq> [] \<and> e \<le> 0 \<longrightarrow>
      compute_smoothed_feasibility_indicator lf cs samples (EtaFloat e) lg fat =
        ([], Inl (ValueError ''eta must be positive.'')))"
proof (intro conjI impI)
  assume "shape t = [n] \<and> n \<noteq> length cs"
  then show "compute_smoothed_feasibility_indicator lf cs samples (EtaTensor t) lg fat =
        ([], Inl (ValueError
           ''Number of provided constraints and number of provided etas do not match.''))"
    by (simp add: compute_smoothed_feasibility_indicator_def len_def)
next
  assume a: "shape t = [length cs] \<and> (\<exists>x\<in>set (data t). x \<le> 0)"
  then have "\<not> list_all (\<lambda>x. 0 < x) (data t)"
    by (force simp: list_all_iff not_less)
  with a show "compute_smoothed_feasibility_indicator lf cs samples (EtaTensor t) lg fat =
        ([], Inl (ValueError ''eta must be positive.''))"
    by (simp add: compute_smoothed_feasibility_indicator_def len_def)
next
  show "compute_smoothed_feasibility_indicator lf cs samples (EtaFloat e) lg fat =
      compute_smoothed_feasibility_indicator lf cs samples (EtaTensor (full [length cs] e)) lg fat"
    by (rule csfi_float)
next
  assume a: "cs \<noteq> [] \<and> e \<le> 0"
  then have "\<not> list_all (\<lambda>x. 0 < x) (replicate (length cs) e)"
    by (cases cs) (auto simp: list_all_iff)
  then show "compute_smoothed_feasibility_indicator lf cs samples (EtaFloat e) lg fat =
        ([], Inl (ValueError ''eta must be positive.''))"
    by (simp add: compute_smoothed_feasibility_indicator_def len_def full_def)
qed

theorem smoothed_indicator_validation_witness:
  "compute_smoothed_feasibility_indicator logexpit [squeeze_last, squeeze_last]
      \<lparr>shape = [1, 1], data = [0]\<rparr> (EtaTensor \<lparr>shape = [3], data = [1, 1, 1]\<rparr>) False False =
     ([], Inl (ValueError
        ''Number of provided constraints and number of provided etas do not match.''))
 \<and> compute_smoothed_feasibility_indicator logexpit [squeeze_last, squeeze_last]
      \<lparr>shape = [1, 1], data = [0]\<rparr> (EtaTensor \<lparr>shape = [2], data = [1, 0]\<rparr>) False False =
     ([], Inl (ValueError ''eta must be positive.''))
 \<and> compute_smoothed_feasibility_indicator logexpit [squeeze_last, squeeze_last]
      \<lparr>shape = [1, 1], data = [0]\<rparr> (EtaFloat (- 1)) False False =
     ([], Inl (ValueError ''eta must be positive.''))"
  using smoothed_indicator_validation[of "\<lparr>shape = [3], data = [1, 1, 1]\<rparr>" 3 "[squeeze_last, squeeze_last]"
          logexpit "\<lparr>shape = [1, 1], data = [0]\<rparr>" False False "- 1"]
        smoothed_indicator_validation[of "\<lparr>shape = [2], data = [1, 0]\<rparr>" 2 "[squeeze_last, squeeze_last]"
          logexpit "\<lparr>shape = [1, 1], data = [0]\<rparr>" False False "- 1"]
  by simp

text \<open>
  Claim C10.  With an empty constraint list and a scalar temperature, on a sample batch
  that has an outcome axis of non-zero size, \<open>compute_smoothed_feasibility_indicator\<close>
  raises no error, calls nothing, and returns the all-zeros array of the batch's leading
  shape for \<open>log=True\<close> and the all-ones array for \<open>log=False\<close>; the latter is the hard
  indicator's all-true array read as numbers.
\<close>

theorem smoothed_indicator_no_constraints:
  "shape samples \<noteq> [] \<Longrightarrow> last (shape samples) \<noteq> 0 \<Longrightarrow>
     compute_smoothed_feasibility_indicator lf [] samples (EtaFloat e) True fat =
       ([], Inr (full (butlast (shape samples)) 0))
   \<and> compute_smoothed_feasibility_indicator lf [] samples (EtaFloat e) False fat =
       ([], Inr (full (butlast (shape samples)) 1))
   \<and> snd (compute_smoothed_feasibility_indicator lf [] samples (EtaFloat e) False fat) =
       map_sum id (tmap (\<lambda>b. if b then 1 else 0))
         (snd (compute_feasibility_indicator (Some []) samples))"
  using smoothed_no_constraints[of samples lf e True fat]
    smoothed_no_constraints[of samples lf e False fat]
  by (simp add: compute_feasibility_indicator_def full_def tmap_def)

theorem smoothed_indicator_no_constraints_witness:
  "compute_smoothed_feasibility_indicator logexpit [] \<lparr>shape = [2, 3], data = [1, 2, 3, 4, 5, 6]\<rparr>
      (EtaFloat (1/1000)) True False = ([], Inr \<lparr>shape = [2], data = [0, 0]\<rparr>)
 \<and> compute_smoothed_feasibility_indicator logexpit [] \<lparr>shape = [2, 3], data = [1, 2, 3, 4, 5, 6]\<rparr>
      (EtaFloat (1/1000)) False False = ([], Inr \<lparr>shape = [2], data = [1, 1]\<rparr>)"
  using smoothed_indicator_no_constraints[of "\<lparr>shape = [2, 3], data = [1, 2, 3, 4, 5, 6]\<rparr>" logexpit "1/1000" False]
  by (simp add: full_def numeral_2_eq_2)

section \<open>Applying constraints to an objective\<close>

text \<open>
  Claim C5.  \<open>apply_constraints\<close> adds \<open>infeasible_cost\<close> to every objective value,
  hands the shifted objective to \<open>apply_constraints_nonnegative_soft\<close>, and subtracts
  \<open>infeasible_cost\<close> from every value of that result; an error of the inner call is
  passed on unchanged.
\<close>

theorem apply_constraints_shift:
  "apply_constraints log_fatmoid obj constraints samples M eta =
     map_prod id (map_sum id (tmap (\<lambda>x. x - M)))
       (apply_constraints_nonnegative_soft log_fatmoid (tmap (\<lambda>x. x + M) obj)
          constraints samples eta)"
  by (simp add: apply_constraints_def Let_def split: prod.splits sum.splits)

theorem apply_constraints_shift_witness:
  "apply_constraints logexpit \<lparr>shape = [2], data = [- 5, 2]\<rparr> []
     \<lparr>shape = [2, 1], data = [0, 0]\<rparr> 3 (EtaFloat (1/1000)) =
   ([], Inr \<lparr>shape = [2], data = [- 3, 2]\<rparr>)"
  using apply_constraints_shift[of logexpit "\<lparr>shape = [2], data = [- 5, 2]\<rparr>" "[]"
     "\<lparr>shape = [2, 1], data = [0, 0]\<rparr>" 3 "EtaFloat (1/1000)"]
    smoothed_no_constraints[of "\<lparr>shape = [2, 1], data = [0, 0]\<rparr>" logexpit "1/1000" False False]
  by (simp add: apply_constraints_nonnegative_soft_def binop_same_shape valid_def tmap_def full_def numeral_2_eq_2)

section \<open>The legacy evaluator\<close>

text \<open>
  Claim C9, as the code has it.  \<open>soft_eval_constraint(lhs, eta)\<close> fails with the
  positivity \<open>ValueError\<close> for \<open>eta \<le> 0\<close> and returns \<open>sigmoid(-lhs / eta)\<close> otherwise.
  For a well-formed \<open>lhs\<close> and a sample batch whose leading shape is that of \<open>lhs\<close>, this
  value is the single-constraint smoothed indicator itself (constraint \<open>c(x) = lhs\<close>, the
  same \<open>eta\<close>, not fat, not log); it is one minus the smoothed indicator of the negated
  constraint \<open>c(x) = -lhs\<close>.
\<close>

theorem soft_eval_constraint_is_smoothed:
  "(eta \<le> 0 \<longrightarrow> snd (soft_eval_constraint lhs eta) = Inl (ValueError ''eta must be positive.''))
 \<and> (0 < eta \<longrightarrow> snd (soft_eval_constraint lhs eta) = Inr (tmap (\<lambda>x. sigmoid (- x / eta)) lhs))
 \<and> (0 < eta \<and> valid lhs \<and> shape samples = shape lhs @ [m] \<and> m \<noteq> 0 \<longrightarrow>
      snd (soft_eval_constraint lhs eta) =
        snd (compute_smoothed_feasibility_indicator lf [\<lambda>_. lhs] samples (EtaFloat eta)
               False False)
    \<and> snd (soft_eval_constraint lhs eta) =
        map_sum id (tmap (\<lambda>y. 1 - y))
          (snd (compute_smoothed_feasibility_indicator lf [\<lambda>_. tmap uminus lhs] samples
                  (EtaFloat eta) False False)))"
proof (intro conjI impI)
  show "eta \<le> 0 \<Longrightarrow> snd (soft_eval_constraint lhs eta) = Inl (ValueError ''eta must be positive.'')"
    by (simp add: soft_eval_constraint_def)
  show "0 < eta \<Longrightarrow> snd (soft_eval_constraint lhs eta) = Inr (tmap (\<lambda>x. sigmoid (- x / eta)) lhs)"
    by (simp add: soft_eval_constraint_def)
next
  assume a: "0 < eta \<and> valid lhs \<and> shape samples = shape lhs @ [m] \<and> m \<noteq> 0"
  then show "snd (soft_eval_constraint lhs eta) =
        snd (compute_smoothed_feasibility_indicator lf [\<lambda>_. lhs] samples (EtaFloat eta)
               False False)"
    by (simp add: smoothed_single_constant soft_eval_constraint_def)
next
  assume a: "0 < eta \<and> valid lhs \<and> shape samples = shape lhs @ [m] \<and> m \<noteq> 0"
  then have p: "0 < eta" "valid (tmap uminus lhs)" "shape samples = shape (tmap uminus lhs) @ [m]"
      "m \<noteq> 0"
    by simp_all
  have "compute_smoothed_feasibility_indicator lf [\<lambda>_. tmap uminus lhs] samples (EtaFloat eta) False False =
           ([(\<lambda>_. tmap uminus lhs, samples)], Inr (tmap (\<lambda>x. sigmoid (- x / eta)) (tmap uminus lhs)))"
    using p by (rule smoothed_single_constant)
  moreover have "sigmoid (- x / eta) = 1 - sigmoid (x / eta)" for x
    using sigmoid_neg[of "x / eta"] by simp
  ultimately show "snd (soft_eval_constraint lhs eta) =
        map_sum id (tmap (\<lambda>y. 1 - y))
          (snd (compute_smoothed_feasibility_indicator lf [\<lambda>_. tmap uminus lhs] samples
                  (EtaFloat eta) False False))"
    using a by (simp add: soft_eval_constraint_def tmap_def comp_def)
qed

theorem soft_eval_constraint_is_smoothed_witness:
  "snd (soft_eval_constraint \<lparr>shape = [1], data = [- 1]\<rparr> 1)
     = Inr \<lparr>shape = [1], data = [sigmoid 1]\<rparr>
 \<and> snd (compute_smoothed_feasibility_indicator logexpit
           [\<lambda>_. \<lparr>shape = [1], data = [- 1]\<rparr>] \<lparr>shape = [1, 1], data = [0]\<rparr>
           (EtaFloat 1) False False) = Inr \<lparr>shape = [1], data = [sigmoid 1]\<rparr>
 \<and> snd (soft_eval_constraint \<lparr>shape = [1], data = [- 1]\<rparr> 0)
     = Inl (ValueError ''eta must be positive.'')"
proof -
  note t1 = soft_eval_constraint_is_smoothed[of 1 "\<lparr>shape = [1], data = [- 1]\<rparr>" "\<lparr>shape = [1, 1], data = [0]\<rparr>" 1 logexpit]
  note t0 = soft_eval_constraint_is_smoothed[of 0 "\<lparr>shape = [1], data = [- 1]\<rparr>" "\<lparr>shape = [1, 1], data = [0]\<rparr>" 1 logexpit]
  have h: "(0::real) < 1 \<and> valid \<lparr>shape = [1], data = [- 1 :: real]\<rparr>
      \<and> shape \<lparr>shape = [1, 1], data = [0 :: real]\<rparr>
          = shape \<lparr>shape = [1], data = [- 1 :: real]\<rparr> @ [1] \<and> (1::nat) \<noteq> 0"
    by (simp add: valid_def)
  have a: "snd (soft_eval_constraint \<lparr>shape = [1], data = [- 1]\<rparr> 1)
     = Inr \<lparr>shape = [1], data = [sigmoid 1]\<rparr>"
    using t1 by (simp add: tmap_def)
  have "snd (soft_eval_constraint \<lparr>shape = [1], data = [- 1]\<rparr> 1) =
        snd (compute_smoothed_feasibility_indicator logexpit
           [\<lambda>_. \<lparr>shape = [1], data = [- 1]\<rparr>] \<lparr>shape = [1, 1], data = [0]\<rparr>
           (EtaFloat 1) False False)"
    using t1 h by blast
  then have b: "snd (compute_smoothed_feasibility_indicator logexpit
           [\<lambda>_. \<lparr>shape = [1], data = [- 1]\<rparr>] \<lparr>shape = [1, 1], data = [0]\<rparr>
           (EtaFloat 1) False False) = Inr \<lparr>shape = [1], data = [sigmoid 1]\<rparr>"
    using a by simp
  have c: "snd (soft_eval_constraint \<lparr>shape = [1], data = [- 1]\<rparr> 0)
     = Inl (ValueError ''eta must be positive.'')"
    using t0 by simp
  from a b c show ?thesis by simp
qed

text \<open>
  The claim as written, one minus the indicator of \<open>c(x) = lhs\<close>, fails: at
  \<open>lhs = -1\<close> and \<open>eta = 1\<close> the two sides are more than a quarter apart.
\<close>

theorem soft_eval_constraint_not_complement:
  "\<not> close_to (1 / 4)
       (projr (snd (soft_eval_constraint \<lparr>shape = [1], data = [- 1]\<rparr> 1)))
       (tmap (\<lambda>y. 1 - y)
          (projr (snd (compute_smoothed_feasibility_indicator logexpit
                         [\<lambda>_. \<lparr>shape = [1], data = [- 1]\<rparr>] \<lparr>shape = [1, 1], data = [0]\<rparr>
                         (EtaFloat 1) False False))))"
  using smoothed_single_constant[of 1 "\<lparr>shape = [1], data = [- 1]\<rparr>"
          "\<lparr>shape = [1, 1], data = [0]\<rparr>" 1 logexpit] sigmoid_one_ge
  by (simp add: soft_eval_constraint_def close_to_def tmap_def valid_def)

section \<open>Composition of constraints\<close>

text \<open>
  Claim C1.  Let the temperatures be a well-formed one-dimensional tensor of strictly
  positive values, one per constraint, and let every constraint map the sample batch to a
  well-formed array of the batch's leading shape.  Then each single-constraint smoothed
  indicator (one constraint, its own temperature, \<open>log=False\<close>) is defined and has the
  leading shape; the smoothed indicator of the whole list with \<open>log=False\<close> is, at every
  position, the product of the single-constraint indicators at that position; and the
  result with \<open>log=True\<close> is, at every position, zero plus the sum over the constraints of
  \<open>log_sigmoid(-constraint(samples) / eta_i)\<close>.  This holds for either kernel.
\<close>

theorem smoothed_indicator_multiplicative:
  assumes "valid eta" "shape eta = [length cs]" "\<forall>e\<in>set (data eta). 0 < e"
    and "shape samples \<noteq> []" "last (shape samples) \<noteq> 0"
    and "\<forall>c\<in>set cs. valid (c samples) \<and> shape (c samples) = butlast (shape samples)"
  shows "(\<forall>i<length cs.
            \<not> isl (snd (compute_smoothed_feasibility_indicator lf [cs ! i] samples
                          (EtaTensor \<lparr>shape = [1], data = [data eta ! i]\<rparr>) False fat))
            \<and> shape (projr (snd (compute_smoothed_feasibility_indicator lf [cs ! i] samples
                          (EtaTensor \<lparr>shape = [1], data = [data eta ! i]\<rparr>) False fat)))
                = butlast (shape samples))
       \<and> snd (compute_smoothed_feasibility_indicator lf cs samples (EtaTensor eta) False fat) =
           Inr \<lparr>shape = butlast (shape samples),
                data = map (\<lambda>j. \<Prod>i<length cs.
                              data (projr (snd (compute_smoothed_feasibility_indicator lf
                                [cs ! i] samples
                                (EtaTensor \<lparr>shape = [1], data = [data eta ! i]\<rparr>) False fat))) ! j)
                         [0..<prod_list (butlast (shape samples))]\<rparr>
       \<and> snd (compute_smoothed_feasibility_indicator lf cs samples (EtaTensor eta) True fat) =
           Inr \<lparr>shape = butlast (shape samples),
                data = map (\<lambda>j. 0 + (\<Sum>i<length cs.
                                   (if fat then lf else logexpit)
                                     (- data ((cs ! i) samples) ! j / data eta ! i)))
                         [0..<prod_list (butlast (shape samples))]\<rparr>"
proof -
  let ?s = "butlast (shape samples)"
  define single where "single = (\<lambda>i. compute_smoothed_feasibility_indicator lf [cs ! i] samples
                           (EtaTensor \<lparr>shape = [1], data = [data eta ! i]\<rparr>) False fat)"
  define log_sigmoid where "log_sigmoid = (if fat then lf else logexpit)"
  have len: "length (data eta) = length cs" using assms(1,2) by (simp add: valid_def)
  have single_eq: "single i = ([(cs ! i, samples)],
            Inr \<lparr>shape = ?s,
                 data = map (\<lambda>j. exp (log_sigmoid (- data ((cs ! i) samples) ! j / data eta ! i)))
                          [0..<prod_list ?s]\<rparr>)" if "i < length cs" for i
  proof -
    have "cs ! i \<in> set cs" "data eta ! i \<in> set (data eta)" using that len by simp_all
    then have "0 < data eta ! i" "valid ((cs ! i) samples)" "shape ((cs ! i) samples) = ?s"
      using assms(3,6) by auto
    then show ?thesis
      unfolding single_def log_sigmoid_def
      using smoothed_single_well_shaped[of "data eta ! i" samples "cs ! i" lf False fat] assms(4,5)
      by simp
  qed
  have sums: "(\<Sum>(c, e)\<leftarrow>zip cs (data eta). log_sigmoid (- data (c samples) ! j / e))
        = (\<Sum>i<length cs. log_sigmoid (- data ((cs ! i) samples) ! j / data eta ! i))" for j
    using len by (rule sum_list_zip_nth)
  have all: "compute_smoothed_feasibility_indicator lf cs samples (EtaTensor eta) lg fat =
           (map (\<lambda>c. (c, samples)) cs,
            Inr \<lparr>shape = ?s,
                 data = map (\<lambda>j. (if lg then id else exp)
                                (\<Sum>i<length cs. log_sigmoid (- data ((cs ! i) samples) ! j / data eta ! i)))
                          [0..<prod_list ?s]\<rparr>)" for lg
    using smoothed_well_shaped[OF assms(1-6), of lf lg fat, folded log_sigmoid_def]
    by (simp only: sums)
  have c1: "\<forall>i<length cs. \<not> isl (snd (single i)) \<and> shape (projr (snd (single i))) = ?s"
    by (simp add: single_eq)
  have "map (\<lambda>j. exp (\<Sum>i<length cs. log_sigmoid (- data ((cs ! i) samples) ! j / data eta ! i)))
            [0..<prod_list ?s]
      = map (\<lambda>j. \<Prod>i<length cs. data (projr (snd (single i))) ! j) [0..<prod_list ?s]"
  proof (rule map_cong[OF refl])
    fix j assume "j \<in> set [0..<prod_list ?s]"
    then have j: "j < prod_list ?s" by simp
    have "exp (\<Sum>i<length cs. log_sigmoid (- data ((cs ! i) samples) ! j / data eta ! i))
        = (\<Prod>i<length cs. exp (log_sigmoid (- data ((cs ! i) samples) ! j / data eta ! i)))"
      by (simp add: exp_sum)
    also have "\<dots> = (\<Prod>i<length cs. data (projr (snd (single i))) ! j)"
      by (rule prod.cong) (use j in \<open>simp_all add: single_eq\<close>)
    finally show "exp (\<Sum>i<length cs. log_sigmoid (- data ((cs ! i) samples) ! j / data eta ! i))
        = (\<Prod>i<length cs. data (projr (snd (single i))) ! j)" .
  qed
  then have c2: "snd (compute_smoothed_feasibility_indicator lf cs samples (EtaTensor eta) False fat) =
           Inr \<lparr>shape = ?s,
                data = map (\<lambda>j. \<Prod>i<length cs. data (projr (snd (single i))) ! j)
                         [0..<prod_list ?s]\<rparr>"
    by (simp add: all)
  have c3: "snd (compute_smoothed_feasibility_indicator lf cs samples (EtaTensor eta) True fat) =
           Inr \<lparr>shape = ?s,
                data = map (\<lambda>j. 0 + (\<Sum>i<length cs.
                                   log_sigmoid (- data ((cs ! i) samples) ! j / data eta ! i)))
                         [0..<prod_list ?s]\<rparr>"
    by (simp add: all)
  from c1 c2 c3 show ?thesis unfolding single_def log_sigmoid_def by blast
qed

theorem smoothed_indicator_multiplicative_witness:
  "snd (compute_smoothed_feasibility_indicator logexpit
          [squeeze_last, \<lambda>x. tmap (\<lambda>v. 2 * v) (squeeze_last x)]
          \<lparr>shape = [1, 1], data = [- 1]\<rparr> (EtaTensor \<lparr>shape = [2], data = [1, 2]\<rparr>) False False)
     = Inr \<lparr>shape = [1], data = [sigmoid 1 * sigmoid 1]\<rparr>
 \<and> snd (compute_smoothed_feasibility_indicator logexpit
          [squeeze_last, \<lambda>x. tmap (\<lambda>v. 2 * v) (squeeze_last x)]
          \<lparr>shape = [1, 1], data = [- 1]\<rparr> (EtaTensor \<lparr>shape = [2], data = [1, 2]\<rparr>) True False)
     = Inr \<lparr>shape = [1], data = [logexpit 1 + logexpit 1]\<rparr>"
proof -
  let ?S = "\<lparr>shape = [1, 1], data = [- 1 :: real]\<rparr>"
  let ?c2 = "\<lambda>x :: real tensor. tmap (\<lambda>v. 2 * v) (squeeze_last x)"
  have s0: "compute_smoothed_feasibility_indicator logexpit [squeeze_last] ?S
           (EtaTensor \<lparr>shape = [1], data = [1]\<rparr>) False False
         = ([(squeeze_last, ?S)], Inr \<lparr>shape = [1], data = [sigmoid 1]\<rparr>)"
    using smoothed_single_well_shaped[of 1 ?S squeeze_last logexpit False False]
    by (simp add: valid_def squeeze_last_def exp_logexpit)
  have s1: "compute_smoothed_feasibility_indicator logexpit [?c2] ?S
           (EtaTensor \<lparr>shape = [1], data = [2]\<rparr>) False False
         = ([(?c2, ?S)], Inr \<lparr>shape = [1], data = [sigmoid 1]\<rparr>)"
    using smoothed_single_well_shaped[of 2 ?S ?c2 logexpit False False]
    by (simp add: valid_def squeeze_last_def exp_logexpit tmap_def)
  have h: "valid \<lparr>shape = [2], data = [1, 2 :: real]\<rparr>"
    "shape \<lparr>shape = [2], data = [1, 2 :: real]\<rparr> = [length [squeeze_last, ?c2]]"
    "\<forall>e\<in>set (data \<lparr>shape = [2], data = [1, 2 :: real]\<rparr>). 0 < e"
    "shape ?S \<noteq> []" "last (shape ?S) \<noteq> 0"
    "\<forall>c\<in>set [squeeze_last, ?c2]. valid (c ?S) \<and> shape (c ?S) = butlast (shape ?S)"
    by (simp_all add: valid_def squeeze_last_def tmap_def)
  note t = smoothed_indicator_multiplicative[OF h, of logexpit False]
  have a: "snd (compute_smoothed_feasibility_indicator logexpit [squeeze_last, ?c2] ?S
                 (EtaTensor \<lparr>shape = [2], data = [1, 2]\<rparr>) False False)
     = Inr \<lparr>shape = [1], data = [sigmoid 1 * sigmoid 1]\<rparr>"
    using t by (simp add: s0[simplified] s1[simplified] numeral_2_eq_2)
  have b: "snd (compute_smoothed_feasibility_indicator logexpit [squeeze_last, ?c2] ?S
                 (EtaTensor \<lparr>shape = [2], data = [1, 2]\<rparr>) True False)
     = Inr \<lparr>shape = [1], data = [logexpit 1 + logexpit 1]\<rparr>"
    using t by (simp add: numeral_2_eq_2 squeeze_last_def)
  from a b show ?thesis by simp
qed

section \<open>The objective weighting transform\<close>

text \<open>
  Claim C7.  With a weight vector \<open>w\<close> of length \<open>m\<close> and a well-formed \<open>Y\<close> of shape
  \<open>s @ [m]\<close>, for any leading shape \<open>s\<close>, the transform returns a well-formed array \<open>Z\<close> of
  shape \<open>s\<close> with \<open>Z[idx] = \<Sum>j<m. Y[idx, j] * w[j]\<close> at every index of \<open>s\<close>; the weights
  \<open>[0.75, 0.25]\<close> on the values \<open>[2.0, 4.0]\<close> give \<open>2.5\<close>.  Without a weight vector the
  transform returns \<open>Y.squeeze(-1)\<close>, which for a \<open>[b, q, 1]\<close> input is the \<open>[b, q]\<close> array
  with the same elements.
\<close>

theorem objective_weights_transform:
  "(valid Y \<and> shape Y = s @ [m] \<and> shape w = [m] \<longrightarrow>
      (\<exists>Z. get_objective_weights_transform (Some w) Y X = Inr Z \<and> shape Z = s \<and> valid Z
         \<and> (\<forall>idx. list_all2 (<) idx s \<longrightarrow>
               get Z idx = (\<Sum>j<m. get Y (idx @ [j]) * get w [j]))))
 \<and> get_objective_weights_transform None Y None = Inr (squeeze_last Y)
 \<and> (shape Y = [b, q, 1] \<longrightarrow>
      get_objective_weights_transform None Y None = Inr \<lparr>shape = [b, q], data = data Y\<rparr>)"
proof (intro conjI impI)
  assume a: "valid Y \<and> shape Y = s @ [m] \<and> shape w = [m]"
  let ?Z = "\<lparr>shape = s,
           data = map (\<lambda>r. \<Sum>j\<leftarrow>[0..<m]. data Y ! (r * m + j) * data w ! j)
                    [0..<prod_list s]\<rparr>"
  have e: "get_objective_weights_transform (Some w) Y X = Inr ?Z"
    using a by (simp add: get_objective_weights_transform_def einsum_m_vector)
  have "get ?Z idx = (\<Sum>j<m. get Y (idx @ [j]) * get w [j])" if i: "list_all2 (<) idx s" for idx
  proof -
    have l: "length idx = length s" using i by (rule list_all2_lengthD)
    have o: "offset s idx < prod_list s" using i by (rule offset_less)
    have "get ?Z idx = (\<Sum>j\<leftarrow>[0..<m]. data Y ! (offset s idx * m + j) * data w ! j)"
      using o by (simp add: get_def)
    also have "\<dots> = (\<Sum>j<m. data Y ! (offset s idx * m + j) * data w ! j)"
      by (simp add: sum_list_sum_nth atLeast0LessThan)
    also have "\<dots> = (\<Sum>j<m. get Y (idx @ [j]) * get w [j])"
      using a l by (simp add: get_def offset_snoc)
    finally show ?thesis .
  qed
  moreover have "valid ?Z" by (simp add: valid_def)
  ultimately show "\<exists>Z. get_objective_weights_transform (Some w) Y X = Inr Z \<and> shape Z = s \<and> valid Z
         \<and> (\<forall>idx. list_all2 (<) idx s \<longrightarrow>
               get Z idx = (\<Sum>j<m. get Y (idx @ [j]) * get w [j]))"
    using e by (intro exI[of _ ?Z]) simp
next
  show "get_objective_weights_transform None Y None = Inr (squeeze_last Y)"
    by (simp add: get_objective_weights_transform_def)
next
  assume "shape Y = [b, q, 1]"
  then show "get_objective_weights_transform None Y None = Inr \<lparr>shape = [b, q], data = data Y\<rparr>"
    by (simp add: get_objective_weights_transform_def squeeze_last_def)
qed

theorem objective_weights_transform_witness:
  "get_objective_weights_transform (Some \<lparr>shape = [2], data = [3 / 4, 1 / 4]\<rparr>)
     \<lparr>shape = [1, 1, 2], data = [2, 4]\<rparr> None = Inr \<lparr>shape = [1, 1], data = [5 / 2]\<rparr>
 \<and> get_objective_weights_transform None \<lparr>shape = [1, 2, 1], data = [2, 4]\<rparr> None
     = Inr \<lparr>shape = [1, 2], data = [2, 4]\<rparr>"
proof -
  let ?Y = "\<lparr>shape = [1, 1, 2], data = [2, 4 :: real]\<rparr>"
  let ?w = "\<lparr>shape = [2], data = [3 / 4, 1 / 4 :: real]\<rparr>"
  have h: "valid ?Y \<and> shape ?Y = [1, 1] @ [2] \<and> shape ?w = [2]"
    by (simp add: valid_def)
  note t = objective_weights_transform[of ?Y "[1, 1]" 2 ?w None 1 2]
  from t h obtain Z where z: "get_objective_weights_transform (Some ?w) ?Y None = Inr Z"
      "shape Z = [1, 1]" "valid Z"
      "\<forall>idx. list_all2 (<) idx [1, 1] \<longrightarrow> get Z idx = (\<Sum>j<2. get ?Y (idx @ [j]) * get ?w [j])"
    by blast
  from z(4) have "get Z [0, 0] = (\<Sum>j<2. get ?Y ([0, 0] @ [j]) * get ?w [j])"
    by simp
  then have g: "get Z [0, 0] = 5 / 2"
    by (simp add: get_def numeral_2_eq_2)
  from z(2,3) have "length (data Z) = 1" by (simp add: valid_def)
  then obtain x where x: "data Z = [x]" by (cases "data Z") auto
  with g z(2) have "x = 5 / 2" by (simp add: get_def)
  with x z(2) have "Z = \<lparr>shape = [1, 1], data = [5 / 2]\<rparr>" by simp
  with z(1) have a: "get_objective_weights_transform (Some ?w) ?Y None
      = Inr \<lparr>shape = [1, 1], data = [5 / 2]\<rparr>" by simp
  have b: "get_objective_weights_transform None \<lparr>shape = [1, 2, 1], data = [2, 4]\<rparr> None
     = Inr \<lparr>shape = [1, 2], data = [2, 4]\<rparr>"
    using objective_weights_transform[of "\<lparr>shape = [1, 2, 1], data = [2, 4]\<rparr>" "[1, 1]" 2 ?w None 1 2]
    by (simp add: squeeze_last_def)
  from a b show ?thesis by simp
qed

section \<open>A constraint that is always satisfied\<close>

text \<open>
  Claim C6, as the code has it.  Take the single constraint that returns \<open>-1\<close> everywhere,
  a scalar temperature \<open>eta > 0\<close>, a well-formed objective of the batch's leading shape and
  an \<open>infeasible_cost\<close> \<open>M\<close> with \<open>x + M \<ge> 0\<close> for every objective value \<open>x\<close>.  Then
  \<open>apply_constraints\<close> returns \<open>(x + M) * sigmoid(1 / eta) - M\<close> at every position: the
  feasibility weight is \<open>sigmoid(1 / eta)\<close>, which is below 1.  The result is within \<open>tol\<close>
  of the objective whenever \<open>(x + M) * exp(-1 / eta) \<le> tol\<close> for every objective value \<open>x\<close>.
\<close>

theorem apply_constraints_fully_feasible_error:
  assumes "0 < eta" "valid obj" "shape samples = shape obj @ [m]" "m \<noteq> 0"
    and "\<forall>x\<in>set (data obj). 0 \<le> x + M"
  shows "snd (apply_constraints lf obj [\<lambda>x. full (butlast (shape x)) (- 1)] samples M
                (EtaFloat eta))
           = Inr (tmap (\<lambda>x. (x + M) * sigmoid (1 / eta) - M) obj)
       \<and> (\<forall>tol. (\<forall>x\<in>set (data obj). (x + M) * exp (- (1 / eta)) \<le> tol) \<longrightarrow>
            close_to tol
              (projr (snd (apply_constraints lf obj [\<lambda>x. full (butlast (shape x)) (- 1)]
                             samples M (EtaFloat eta))))
              obj)"
proof -
  let ?r = "apply_constraints lf obj [\<lambda>x. full (butlast (shape x)) (- 1)] samples M (EtaFloat eta)"
  let ?g = "\<lambda>x. (x + M) * sigmoid (1 / eta) - M"
  have "map (\<lambda>x. max 0 (x + M) * sigmoid (1 / eta) - M) (data obj) = map ?g (data obj)"
    by (rule map_cong) (use assms(5) in \<open>simp_all add: max_def\<close>)
  then have r: "snd ?r = Inr (tmap ?g obj)"
    using apply_constraints_fully_feasible[OF assms(1-4), of lf M] by (simp add: tmap_def)
  have "close_to tol (tmap ?g obj) obj"
    if t: "\<forall>x\<in>set (data obj). (x + M) * exp (- (1 / eta)) \<le> tol" for tol
  proof -
    have "\<bar>?g x - x\<bar> \<le> tol" if x: "x \<in> set (data obj)" for x
    proof -
      have nn: "0 \<le> x + M" using assms(5) x by simp
      have "?g x - x = - ((x + M) * (1 - sigmoid (1 / eta)))" by (simp add: algebra_simps)
      moreover have "0 \<le> (x + M) * (1 - sigmoid (1 / eta))"
        using nn sigmoid_less_one[of "1 / eta"] by simp
      ultimately have "\<bar>?g x - x\<bar> = (x + M) * (1 - sigmoid (1 / eta))" by simp
      also have "\<dots> \<le> (x + M) * exp (- (1 / eta))"
        using nn one_minus_sigmoid_le[of "1 / eta"] by (rule mult_left_mono[rotated])
      also have "\<dots> \<le> tol" using t x by simp
      finally show ?thesis .
    qed
    then have "list_all2 (\<lambda>x y. \<bar>x - y\<bar> \<le> tol) (map ?g (data obj)) (data obj)"
      by (simp add: list_all2_conv_all_nth)
    then show ?thesis by (simp add: close_to_def)
  qed
  with r show ?thesis by simp
qed

theorem apply_constraints_fully_feasible_error_witness:
  "snd (apply_constraints logexpit \<lparr>shape = [1], data = [1]\<rparr>
          [\<lambda>x. full (butlast (shape x)) (- 1)] \<lparr>shape = [1, 1], data = [0]\<rparr> 3 (EtaFloat 1))
     = Inr \<lparr>shape = [1], data = [4 * sigmoid 1 - 3]\<rparr>"
proof -
  have h: "(0::real) < 1" "valid \<lparr>shape = [1], data = [1 :: real]\<rparr>"
    "shape \<lparr>shape = [1, 1], data = [0 :: real]\<rparr> = shape \<lparr>shape = [1], data = [1 :: real]\<rparr> @ [1]"
    "(1::nat) \<noteq> 0" "\<forall>x\<in>set (data \<lparr>shape = [1], data = [1 :: real]\<rparr>). 0 \<le> x + 3"
    by (simp_all add: valid_def)
  show ?thesis using apply_constraints_fully_feasible_error[OF h, of logexpit] by (simp add: tmap_def)
qed

text \<open>
  The claim as written, for any \<open>M\<close> and any positive temperature, fails: with the
  objective \<open>1\<close>, \<open>M = 3\<close> and \<open>eta = 1\<close> the result is at most \<open>0\<close>.
\<close>

theorem apply_constraints_fully_feasible_not_identity:
  "\<not> close_to (1 / 2)
       (projr (snd (apply_constraints logexpit \<lparr>shape = [1], data = [1]\<rparr>
          [\<lambda>x. full (butlast (shape x)) (- 1)] \<lparr>shape = [1, 1], data = [0]\<rparr> 3 (EtaFloat 1))))
       \<lparr>shape = [1], data = [1]\<rparr>"
proof -
  have "apply_constraints logexpit \<lparr>shape = [1], data = [1]\<rparr>
          [\<lambda>x. full (butlast (shape x)) (- 1)] \<lparr>shape = [1, 1], data = [0]\<rparr> 3 (EtaFloat 1)
      = ([(\<lambda>x. full (butlast (shape x)) (- 1), \<lparr>shape = [1, 1], data = [0]\<rparr>)],
            Inr (tmap (\<lambda>x. max 0 (x + 3) * sigmoid (1 / 1) - 3) \<lparr>shape = [1], data = [1]\<rparr>))"
    using apply_constraints_fully_feasible[of 1 "\<lparr>shape = [1], data = [1]\<rparr>"
        "\<lparr>shape = [1, 1], data = [0]\<rparr>" 1 logexpit 3]
    by (simp add: valid_def)
  then show ?thesis
    using sigmoid_one_le by (simp add: close_to_def tmap_def)
qed

section \<open>Feasibility weighting of a non-negative objective\<close>

text \<open>
  Claim C4, as the code has it.  \<open>apply_constraints_nonnegative_soft\<close> passes on an error
  of the smoothed indicator (called with \<open>log=False\<close>, \<open>fat=False\<close>); otherwise it returns
  the broadcasting product of the objective clamped below at zero and the weight \<open>w\<close>,
  where a trailing axis of size 1 is appended to \<open>w\<close> exactly when the objective has as
  many axes as the sample batch, that is, one more than the weight.  For a well-formed
  objective of shape \<open>shape w @ [m']\<close> the result has the objective's shape and its entry at
  \<open>(idx, j)\<close> is \<open>max 0 obj[idx, j] * w[idx]\<close>; for a well-formed objective of the shape of
  \<open>w\<close> the result is the positionwise product, again of the objective's shape.
\<close>

theorem nonnegative_soft_product:
  "(compute_smoothed_feasibility_indicator lf cs samples eta False False = (calls, Inl err) \<longrightarrow>
      apply_constraints_nonnegative_soft lf obj cs samples eta = (calls, Inl err))
 \<and> (compute_smoothed_feasibility_indicator lf cs samples eta False False = (calls, Inr w) \<longrightarrow>
      apply_constraints_nonnegative_soft lf obj cs samples eta =
        (calls, binop (*) (tmap (max 0) obj)
                  (if length (shape obj) = length (shape samples) then unsqueeze_last w else w))
    \<and> (valid obj \<and> shape obj = shape w @ [m'] \<and> length (shape samples) = Suc (length (shape w)) \<longrightarrow>
         (\<exists>Z. apply_constraints_nonnegative_soft lf obj cs samples eta = (calls, Inr Z)
            \<and> shape Z = shape obj
            \<and> (\<forall>idx j. list_all2 (<) idx (shape w) \<and> j < m' \<longrightarrow>
                  get Z (idx @ [j]) = max 0 (get obj (idx @ [j])) * get w idx)))
    \<and> (valid obj \<and> valid w \<and> shape obj = shape w \<and> length (shape samples) = Suc (length (shape w)) \<longrightarrow>
         apply_constraints_nonnegative_soft lf obj cs samples eta =
           (calls, Inr \<lparr>shape = shape obj,
                        data = map2 (\<lambda>x y. max 0 x * y) (data obj) (data w)\<rparr>)))"
proof (intro conjI impI)
  assume "compute_smoothed_feasibility_indicator lf cs samples eta False False = (calls, Inl err)"
  then show "apply_constraints_nonnegative_soft lf obj cs samples eta = (calls, Inl err)"
    by (simp add: apply_constraints_nonnegative_soft_def)
next
  assume "compute_smoothed_feasibility_indicator lf cs samples eta False False = (calls, Inr w)"
  then show "apply_constraints_nonnegative_soft lf obj cs samples eta =
        (calls, binop (*) (tmap (max 0) obj)
                  (if length (shape obj) = length (shape samples) then unsqueeze_last w else w))"
    by (simp add: apply_constraints_nonnegative_soft_def)
next
  assume c: "compute_smoothed_feasibility_indicator lf cs samples eta False False = (calls, Inr w)"
    and h: "valid obj \<and> shape obj = shape w @ [m'] \<and> length (shape samples) = Suc (length (shape w))"
  let ?a = "tmap (max 0) obj"
  have r: "apply_constraints_nonnegative_soft lf obj cs samples eta
      = (calls, binop (*) ?a (unsqueeze_last w))"
    using c h by (simp add: apply_constraints_nonnegative_soft_def)
  have "\<exists>Z. binop (*) ?a (unsqueeze_last w) = Inr Z \<and> shape Z = shape w @ [m'] \<and> valid Z
           \<and> (\<forall>idx j. list_all2 (<) idx (shape w) \<and> j < m' \<longrightarrow>
                 get Z (idx @ [j]) = get ?a (idx @ [j]) * get w idx)"
    by (rule binop_trailing_one) (use h in simp_all)
  then obtain Z where Z: "binop (*) ?a (unsqueeze_last w) = Inr Z" "shape Z = shape w @ [m']"
      "\<forall>idx j. list_all2 (<) idx (shape w) \<and> j < m' \<longrightarrow>
                 get Z (idx @ [j]) = get ?a (idx @ [j]) * get w idx"
    by blast
  have "get Z (idx @ [j]) = max 0 (get obj (idx @ [j])) * get w idx"
    if i: "list_all2 (<) idx (shape w)" and j: "j < m'" for idx j
  proof -
    have "offset (shape obj) (idx @ [j]) < prod_list (shape obj)"
      using h offset_less[OF list_all2_less_snoc[OF i j]] by simp
    then have "get ?a (idx @ [j]) = max 0 (get obj (idx @ [j]))"
      using h by (intro get_tmap) (simp add: valid_def)
    with Z(3) i j show ?thesis by simp
  qed
  with r Z(1,2) h
  show "\<exists>Z. apply_constraints_nonnegative_soft lf obj cs samples eta = (calls, Inr Z)
            \<and> shape Z = shape obj
            \<and> (\<forall>idx j. list_all2 (<) idx (shape w) \<and> j < m' \<longrightarrow>
                  get Z (idx @ [j]) = max 0 (get obj (idx @ [j])) * get w idx)"
    by (intro exI[of _ Z]) simp
next
  assume c: "compute_smoothed_feasibility_indicator lf cs samples eta False False = (calls, Inr w)"
    and h: "valid obj \<and> valid w \<and> shape obj = shape w \<and> length (shape samples) = Suc (length (shape w))"
  have "binop (*) (tmap (max 0) obj) w
      = Inr \<lparr>shape = shape obj, data = map2 (*) (map (max 0) (data obj)) (data w)\<rparr>"
    using h binop_same_shape[of "tmap (max 0) obj" w "(*)"] by simp
  moreover have "map2 (*) (map (max 0) (data obj)) (data w)
      = map2 (\<lambda>x y. max 0 x * y) (data obj) (data w)"
    by (simp add: zip_map1 case_prod_beta)
  ultimately show "apply_constraints_nonnegative_soft lf obj cs samples eta =
           (calls, Inr \<lparr>shape = shape obj,
                        data = map2 (\<lambda>x y. max 0 x * y) (data obj) (data w)\<rparr>)"
    using c h by (simp add: apply_constraints_nonnegative_soft_def)
qed

theorem nonnegative_soft_product_witness:
  "apply_constraints_nonnegative_soft logexpit \<lparr>shape = [2, 2], data = [- 1, 2, 3, - 4]\<rparr> []
     \<lparr>shape = [2, 3], data = [0, 0, 0, 0, 0, 0]\<rparr> (EtaFloat 1)
   = ([], Inr \<lparr>shape = [2, 2], data = [0, 2, 3, 0]\<rparr>)"
proof -
  let ?S = "\<lparr>shape = [2, 3], data = [0, 0, 0, 0, 0, 0 :: real]\<rparr>"
  let ?obj = "\<lparr>shape = [2, 2], data = [- 1, 2, 3, - 4 :: real]\<rparr>"
  have w: "compute_smoothed_feasibility_indicator logexpit [] ?S (EtaFloat 1) False False
      = ([], Inr (full [2] 1))"
    using smoothed_no_constraints[of ?S logexpit 1 False False] by simp
  have "apply_constraints_nonnegative_soft logexpit ?obj [] ?S (EtaFloat 1) =
        ([], binop (*) (tmap (max 0) ?obj)
                  (if length (shape ?obj) = length (shape ?S) then unsqueeze_last (full [2] 1)
                   else full [2] 1))"
    using nonnegative_soft_product[of logexpit "[]" ?S "EtaFloat 1" "[]" RuntimeError ?obj "full [2] 1" 2] w
    by blast
  then show ?thesis
    by (simp add: binop_def broadcast_shapes_def pad_def expand_def bidx_def Let_def tmap_def
      full_def unsqueeze_last_def upt_rec)
qed

text \<open>
  The claim as written ties the extra axis of the weight to an objective with one more
  axis than the sample batch.  For such an objective the code appends no axis, and the
  result does not have the objective's shape.
\<close>

theorem nonnegative_soft_extra_axis:
  "apply_constraints_nonnegative_soft logexpit \<lparr>shape = [2, 1, 1], data = [1, 1]\<rparr> []
     \<lparr>shape = [2, 1], data = [0, 0]\<rparr> (EtaFloat 1)
   = ([], Inr \<lparr>shape = [2, 1, 2], data = [1, 1, 1, 1]\<rparr>)
 \<and> shape (projr (snd (apply_constraints_nonnegative_soft logexpit
       \<lparr>shape = [2, 1, 1], data = [1, 1]\<rparr> [] \<lparr>shape = [2, 1], data = [0, 0]\<rparr> (EtaFloat 1))))
     \<noteq> shape \<lparr>shape = [2, 1, 1], data = [1, 1 :: real]\<rparr>"
proof -
  let ?S = "\<lparr>shape = [2, 1], data = [0, 0 :: real]\<rparr>"
  have w: "compute_smoothed_feasibility_indicator logexpit [] ?S (EtaFloat 1) False False
      = ([], Inr (full [2] 1))"
    using smoothed_no_constraints[of ?S logexpit 1 False False] by simp
  have "apply_constraints_nonnegative_soft logexpit \<lparr>shape = [2, 1, 1], data = [1, 1]\<rparr> []
     ?S (EtaFloat 1) = ([], Inr \<lparr>shape = [2, 1, 2], data = [1, 1, 1, 1]\<rparr>)"
    using w binop_broadcast_example by (simp add: apply_constraints_nonnegative_soft_def)
  then show ?thesis by simp
qed

section \<open>Range of the smoothed indicator\<close>

text \<open>
  Claim C3.  Whenever \<open>compute_smoothed_feasibility_indicator\<close> returns an array, for any
  constraints, sample batch and temperatures, the array is well formed, each of its
  elements is at most 0 when \<open>log=True\<close>, and each lies in \<open>(0, 1]\<close>, hence in \<open>[0, 1]\<close>, when
  \<open>log=False\<close>.  For \<open>fat=True\<close> this needs the fat-tailed kernel, which is a parameter here,
  to be non-positive everywhere; the standard kernel \<open>logexpit\<close> is.
\<close>

theorem smoothed_indicator_bounds:
  assumes "snd (compute_smoothed_feasibility_indicator lf cs samples eta lg fat) = Inr t"
    and "fat \<longrightarrow> (\<forall>x. lf x \<le> 0)"
  shows "valid t \<and> (\<forall>x\<in>set (data t). if lg then x \<le> 0 else 0 < x \<and> x \<le> 1)"
proof -
  obtain calls where "compute_smoothed_feasibility_indicator lf cs samples eta lg fat = (calls, Inr t)"
    using assms(1) by (cases "compute_smoothed_feasibility_indicator lf cs samples eta lg fat") auto
  then obtain s0 es r where
    loop: "smoothed_loop (if fat then lf else logexpit) cs es samples ([], full s0 0) = (calls, Inr r)"
    and t: "t = (if lg then r else tmap exp r)"
    using smoothed_result_loop by blast
  have ls: "\<forall>x. (if fat then lf else logexpit) x \<le> 0"
    using assms(2) logexpit_nonpos by auto
  have "valid (full s0 (0::real))" "\<forall>x\<in>set (data (full s0 (0::real))). x \<le> 0"
    by (simp_all add: full_def valid_def)
  with loop have r: "valid r \<and> (\<forall>x\<in>set (data r). x \<le> 0)"
    using ls by (rule smoothed_loop_nonpos)
  show ?thesis
  proof (cases lg)
    case True
    with t r show ?thesis by simp
  next
    case False
    with t r show ?thesis by auto
  qed
qed

theorem smoothed_indicator_bounds_witness:
  "\<not> isl (snd (compute_smoothed_feasibility_indicator logexpit
          [squeeze_last, \<lambda>x. tmap (\<lambda>v. 2 * v) (squeeze_last x)]
          \<lparr>shape = [1, 1], data = [- 1]\<rparr> (EtaTensor \<lparr>shape = [2], data = [1, 2]\<rparr>) False False))
 \<and> list_all (\<lambda>x. 0 < x \<and> x \<le> 1)
      (data (projr (snd (compute_smoothed_feasibility_indicator logexpit
          [squeeze_last, \<lambda>x. tmap (\<lambda>v. 2 * v) (squeeze_last x)]
          \<lparr>shape = [1, 1], data = [- 1]\<rparr> (EtaTensor \<lparr>shape = [2], data = [1, 2]\<rparr>) False False))))
 \<and> list_all (\<lambda>x. x \<le> 0)
      (data (projr (snd (compute_smoothed_feasibility_indicator logexpit
          [squeeze_last, \<lambda>x. tmap (\<lambda>v. 2 * v) (squeeze_last x)]
          \<lparr>shape = [1, 1], data = [- 1]\<rparr> (EtaTensor \<lparr>shape = [2], data = [1, 2]\<rparr>) True False))))"
proof -
  let ?S = "\<lparr>shape = [1, 1], data = [- 1 :: real]\<rparr>"
  let ?c2 = "\<lambda>x :: real tensor. tmap (\<lambda>v. 2 * v) (squeeze_last x)"
  let ?eta = "\<lparr>shape = [2], data = [1, 2 :: real]\<rparr>"
  let ?r = "\<lambda>lg. compute_smoothed_feasibility_indicator logexpit [squeeze_last, ?c2] ?S
                  (EtaTensor ?eta) lg False"
  have h: "valid ?eta" "shape ?eta = [length [squeeze_last, ?c2]]"
    "\<forall>e\<in>set (data ?eta). 0 < e" "shape ?S \<noteq> []" "last (shape ?S) \<noteq> 0"
    "\<forall>c\<in>set [squeeze_last, ?c2]. valid (c ?S) \<and> shape (c ?S) = butlast (shape ?S)"
    by (simp_all add: valid_def squeeze_last_def tmap_def)
  have e: "\<exists>t. snd (?r lg) = Inr t" for lg
    using smoothed_well_shaped[OF h, of logexpit lg False] by simp
  then obtain t0 t1 where t: "snd (?r False) = Inr t0" "snd (?r True) = Inr t1" by blast
  have "\<forall>x\<in>set (data t0). 0 < x \<and> x \<le> 1"
    using smoothed_indicator_bounds[OF t(1)] by simp
  moreover have "\<forall>x\<in>set (data t1). x \<le> 0"
    using smoothed_indicator_bounds[OF t(2)] by simp
  ultimately show ?thesis using t by (simp add: list_all_iff)
qed

end
